theory Spec2Isabelle
  imports Complex_Main "HOL-Library.Word"
begin

unbundle bit_operations_syntax

section \<open>Types and constants of the FFM kernel\<close>

text \<open>
  The header \<open>ffm-model.h\<close> is not among the sources. Its type declarations are taken as
  follows: \<open>ffm_uint\<close> (and the \<open>uint\<close> of \<open>test_mask_bit\<close>) is an unsigned 32-bit integer,
  \<open>ffm_ulong\<close> an unsigned 64-bit integer, and \<open>ffm_float\<close> a single-precision number. Single
  precision is idealised as \<open>real\<close>: the development is about which cells are read and
  written and by which formula, not about the rounding of each operation. Two effects of
  the arithmetic are kept in the interaction step of \<open>update\<close>: the reciprocal square
  root is the approximate one of the hardware, and a step that stores an infinity or a
  NaN is told apart from one that stores numbers. The width of the hash,
  \<open>ffm_hash_bits\<close>, is a parameter \<open>hb\<close> of every function that decodes an index.

  Names follow the source. Where a source name is taken in HOL it is changed: the field
  \<open>value\<close> of a feature is \<open>val\<close>, the arguments \<open>norm\<close> and \<open>mask\<close> are \<open>nrm\<close> and
  \<open>msk\<close>, and the function \<open>sum\<close> is \<open>sum_m256\<close>.
\<close>

type_synonym ffm_uint = "32 word"
type_synonym ffm_float = real

text \<open>A flat buffer of floats (\<open>ffm_float *\<close>): the cell at each offset from its base.\<close>

type_synonym buffer = "nat \<Rightarrow> ffm_float"

text \<open>A 256-bit vector register: eight lanes, lane 0 first.\<close>

type_synonym m256 = "ffm_float list"
type_synonym m128 = "ffm_float list"

record ffm_feature =
  index :: ffm_uint
  val :: ffm_float

record ffm_model =
  eta :: ffm_float
  lambda :: ffm_float
  max_b_field :: ffm_uint
  min_a_field :: ffm_uint
  bias_w :: ffm_float
  bias_wg :: ffm_float
  weights :: buffer
  linear_weights :: buffer

definition align_bytes :: nat where
  "align_bytes = 32"

definition align_floats :: nat where
  "align_floats = align_bytes div 4"

definition n_fields :: nat where
  "n_fields = 30"

text \<open>\<open>n_features = 1 << ffm_hash_bits\<close>, for a hash width below the width of \<open>int\<close>.\<close>

definition n_features :: "nat \<Rightarrow> nat" where
  "n_features hb = 2 ^ hb"

definition n_dim :: nat where
  "n_dim = 14"

definition n_dim_aligned :: nat where
  "n_dim_aligned = ((n_dim - 1) div align_floats + 1) * align_floats"

definition index_stride :: nat where
  "index_stride = n_fields * n_dim_aligned * 2"

definition field_stride :: nat where
  "field_stride = n_dim_aligned * 2"

definition prefetch_depth :: ffm_uint where
  "prefetch_depth = 1"

text \<open>
  Modelled from the spec: \<open>ffm_hash_mask\<close>, declared in the missing header, is
  \<open>(1 << hash_bits) - 1\<close>.
\<close>

definition ffm_hash_mask :: "nat \<Rightarrow> ffm_uint" where
  "ffm_hash_mask hb = push_bit hb 1 - 1"

text \<open>
  \<open>test_mask_bit\<close>: the dropout mask is an array of 64-bit words; the result is the
  selected bit as an unsigned integer, 0 or 1.
\<close>

definition test_mask_bit :: "(nat \<Rightarrow> 64 word) \<Rightarrow> ffm_uint \<Rightarrow> ffm_uint" where
  "test_mask_bit msk i = ucast (drop_bit (unat (i AND 63)) (msk (unat (drop_bit 6 i))) AND 1)"

section \<open>Vector intrinsics\<close>

text \<open>
  The intrinsics of \<open>immintrin.h\<close> the kernel uses, lane by lane.
\<close>

definition mm256_set1_ps :: "ffm_float \<Rightarrow> m256" where
  "mm256_set1_ps x = replicate 8 x"

definition mm256_load_ps :: "buffer \<Rightarrow> nat \<Rightarrow> m256" where
  "mm256_load_ps w p = map (\<lambda>k. w (p + k)) [0..<8]"

definition mm256_store_ps :: "buffer \<Rightarrow> nat \<Rightarrow> m256 \<Rightarrow> buffer" where
  "mm256_store_ps w p v = (\<lambda>x. if p \<le> x \<and> x < p + 8 then v ! (x - p) else w x)"

definition mm256_add_ps :: "m256 \<Rightarrow> m256 \<Rightarrow> m256" where
  "mm256_add_ps a b = map2 (+) a b"

definition mm256_sub_ps :: "m256 \<Rightarrow> m256 \<Rightarrow> m256" where
  "mm256_sub_ps a b = map2 (-) a b"

definition mm256_mul_ps :: "m256 \<Rightarrow> m256 \<Rightarrow> m256" where
  "mm256_mul_ps a b = map2 (*) a b"

text \<open>
  \<open>_mm256_rsqrt_ps\<close> is the approximate reciprocal square root of the hardware. The source
  does not fix its values, so the function the hardware computes on one lane is a
  parameter \<open>rs\<close> of everything that runs the lane loop of \<open>update\<close>. The instruction is
  documented to be within a relative error of \<open>1.5 * 2\<^sup>-\<^sup>1\<^sup>2\<close> of \<open>1 / sqrt x\<close> for positive \<open>x\<close>
  (\<open>rsqrt_accurate\<close> below); it is not the division by \<open>sqrt\<close> that the linear and the
  bias step use. At zero the instruction gives an infinity and below zero a NaN; \<open>rs\<close> is
  a function into the reals, so its values there do not describe the hardware, and
  \<open>update_pair\<close> below tests the arguments before it uses the result of the lane loop.
\<close>

definition mm256_rsqrt_ps :: "(ffm_float \<Rightarrow> ffm_float) \<Rightarrow> m256 \<Rightarrow> m256" where
  "mm256_rsqrt_ps rs a = map rs a"


text \<open>
  Each two-bit selector of \<open>_mm256_permute2f128_ps\<close> picks one 128-bit half: bits 0 and 1
  of the control for the low half of the result, bits 4 and 5 for the high half. The
  zeroing bits 3 and 7 are clear in the one control the kernel uses and are left out.
\<close>

definition select128 :: "m256 \<Rightarrow> m256 \<Rightarrow> nat \<Rightarrow> m128" where
  "select128 a b c =
     (if c = 0 then take 4 a else if c = 1 then drop 4 a
      else if c = 2 then take 4 b else drop 4 b)"

definition mm256_permute2f128_ps :: "m256 \<Rightarrow> m256 \<Rightarrow> nat \<Rightarrow> m256" where
  "mm256_permute2f128_ps a b imm = select128 a b (imm mod 4) @ select128 a b (imm div 16 mod 4)"

definition mm256_extractf128_ps :: "m256 \<Rightarrow> nat \<Rightarrow> m128" where
  "mm256_extractf128_ps a imm = (if imm = 0 then take 4 a else drop 4 a)"

definition mm_hadd_ps :: "m128 \<Rightarrow> m128 \<Rightarrow> m128" where
  "mm_hadd_ps a b = [a ! 0 + a ! 1, a ! 2 + a ! 3, b ! 0 + b ! 1, b ! 2 + b ! 3]"

definition mm_store_ss :: "m128 \<Rightarrow> ffm_float" where
  "mm_store_ss s = s ! 0"

text \<open>\<open>sum\<close>: the horizontal sum of the eight lanes.\<close>

definition sum_m256 :: "m256 \<Rightarrow> ffm_float" where
  "sum_m256 v =
     (let s = mm256_extractf128_ps (mm256_add_ps v (mm256_permute2f128_ps v v 1)) 0;
          s = mm_hadd_ps s s;
          s = mm_hadd_ps s s
      in mm_store_ss s)"

section \<open>Construction\<close>

text \<open>
  \<open>init_weights\<close>. The pointer \<open>w\<close> advances by one cell per lane through all three inner
  loops, so in block \<open>i\<close> it points at offset \<open>i * 2 * n_dim_aligned + d\<close>. The random
  source is outside the repository: \<open>gen k\<close> is the value of the \<open>k\<close>-th draw, and block
  \<open>i\<close>, lane \<open>d\<close> receives draw \<open>i * n_dim + d\<close>.
\<close>

definition init_block :: "(nat \<Rightarrow> ffm_float) \<Rightarrow> nat \<Rightarrow> buffer \<Rightarrow> buffer" where
  "init_block gen i w =
     (let w0 = i * (2 * n_dim_aligned);
          w = fold (\<lambda>d w. w(w0 + d := gen (i * n_dim + d))) [0..<n_dim] w;
          w = fold (\<lambda>d w. w(w0 + d := 0)) [n_dim..<n_dim_aligned] w;
          w = fold (\<lambda>d w. w(w0 + d := 1)) [n_dim_aligned..<2 * n_dim_aligned] w
      in w)"

definition init_weights :: "buffer \<Rightarrow> ffm_uint \<Rightarrow> (nat \<Rightarrow> ffm_float) \<Rightarrow> buffer" where
  "init_weights w n gen = fold (init_block gen) [0..<unat n] w"

definition init_linear_weights :: "buffer \<Rightarrow> ffm_uint \<Rightarrow> buffer" where
  "init_linear_weights w n = fold (\<lambda>i w. w(2 * i := 0, 2 * i + 1 := 1)) [0..<unat n] w"

text \<open>
  The constructor. \<open>raw_w\<close> and \<open>raw_l\<close> are the fresh buffers as the allocator returns
  them; \<open>gen\<close> is the sequence of draws of the seeded generator. The block count
  \<open>n_features * n_fields\<close> is computed in 64 bits and passed as an \<open>ffm_uint\<close>.
\<close>

definition ffm_model_new ::
  "nat \<Rightarrow> buffer \<Rightarrow> buffer \<Rightarrow> (nat \<Rightarrow> ffm_float) \<Rightarrow> bool \<Rightarrow> ffm_float \<Rightarrow> ffm_float \<Rightarrow> ffm_model" where
  "ffm_model_new hb raw_w raw_l gen restricted eta0 lambda0 =
     \<lparr> eta = eta0, lambda = lambda0,
       max_b_field = (if restricted then 19 else of_nat n_fields),
       min_a_field = (if restricted then 10 else 0),
       bias_w = 0, bias_wg = 1,
       weights = init_weights raw_w (of_nat (n_features hb * n_fields)) gen,
       linear_weights = init_linear_weights raw_l (of_nat (n_features hb)) \<rparr>"

section \<open>Loop state\<close>

text \<open>
  Both passes keep the pair counter \<open>i\<close> (\<open>cnt\<close>). Two history lists are added to the
  state to speak about the enumeration: \<open>pairs\<close> records every inner iteration that runs
  to its end, as (position of \<open>fa\<close>, position of \<open>fb\<close>, value of \<open>i\<close>, whether the
  interaction code ran), and \<open>reads\<close> records the argument of every \<open>test_mask_bit\<close>
  call, in order.

  The weight buffers of the model hold real numbers. Where an interaction step of
  \<open>update\<close> stores a value that is not a number (an infinity or a NaN) in the weight
  tensor, the offsets of such cells are recorded in \<open>nonfinite\<close> and the model is left
  as it was before the step. The buffers of the model describe the numbers a run has
  stored only as long as this set is empty.
\<close>

type_synonym visit = "nat \<times> nat \<times> ffm_uint \<times> bool"

record trace =
  cnt :: ffm_uint
  pairs :: "visit list"
  reads :: "ffm_uint list"

record predict_state = trace +
  xmm_total :: m256
  linear_total :: ffm_float

record update_state = trace +
  model :: ffm_model
  nonfinite :: "nat set"

section \<open>Addressing\<close>

text \<open>
  The two expressions both passes decode an index with: \<open>index & ffm_hash_mask\<close> for the
  feature id and \<open>index >> ffm_hash_bits\<close> for the field id.
\<close>

definition index_of :: "nat \<Rightarrow> ffm_feature \<Rightarrow> ffm_uint" where
  "index_of hb f = index f AND ffm_hash_mask hb"

definition field_of :: "nat \<Rightarrow> ffm_feature \<Rightarrow> ffm_uint" where
  "field_of hb f = drop_bit hb (index f)"

text \<open>
  The offset \<open>index * index_stride + field * field_stride\<close> of an interaction block. The
  strides are 64-bit constants, so the product of a 32-bit index with them cannot wrap.
\<close>

definition block_offset :: "ffm_uint \<Rightarrow> ffm_uint \<Rightarrow> nat" where
  "block_offset idx fld = unat idx * index_stride + unat fld * field_stride"

section \<open>predict\<close>

function predict_dims :: "buffer \<Rightarrow> nat \<Rightarrow> nat \<Rightarrow> m256 \<Rightarrow> m256 \<Rightarrow> nat \<Rightarrow> m256" where
  "predict_dims w wa wb xmm_val tot d =
     (if d < n_dim then
        let xmm_wa = mm256_load_ps w (wa + d);
            xmm_wb = mm256_load_ps w (wb + d)
        in predict_dims w wa wb xmm_val
             (mm256_add_ps tot (mm256_mul_ps (mm256_mul_ps xmm_wa xmm_wb) xmm_val)) (d + 8)
      else tot)"
  by pat_completeness auto
termination
  by (relation "measure (\<lambda>(w, wa, wb, xmm_val, tot, d). n_dim - d)") auto

declare predict_dims.simps [simp del]

text \<open>The interaction code of one pair (source lines 162 to 172).\<close>

definition predict_pair :: "nat \<Rightarrow> ffm_model \<Rightarrow> ffm_float \<Rightarrow> ffm_feature \<Rightarrow> ffm_feature \<Rightarrow> m256 \<Rightarrow> m256" where
  "predict_pair hb m nrm fa fb tot =
     (let wa = block_offset (index_of hb fa) (field_of hb fb);
          wb = block_offset (index_of hb fb) (field_of hb fa);
          xmm_val = mm256_set1_ps (val fa * val fb / nrm)
      in predict_dims (weights m) wa wb xmm_val tot 0)"

text \<open>
  The inner loop, from \<open>fb\<close> up to \<open>fa\<close>: the list argument holds the features from \<open>fb\<close>
  to the one before \<open>fa\<close>, and \<open>b\<close> is the position of \<open>fb\<close>. The prefetch has no effect on
  any value; of its guard only the mask read is kept, which happens when
  \<open>fb + prefetch_depth < fa\<close>, that is when another feature follows \<open>fb\<close> before \<open>fa\<close>.
\<close>

fun predict_inner ::
  "nat \<Rightarrow> ffm_model \<Rightarrow> ffm_float \<Rightarrow> (nat \<Rightarrow> 64 word) \<Rightarrow> nat \<Rightarrow> ffm_feature \<Rightarrow> nat \<Rightarrow>
   ffm_feature list \<Rightarrow> predict_state \<Rightarrow> predict_state" where
  "predict_inner hb m nrm msk a fa b [] s = s"
| "predict_inner hb m nrm msk a fa b (fb # rest) s =
     (if field_of hb fb > max_b_field m then s
      else
        let i = cnt s;
            rd = (if rest \<noteq> [] then [i + prefetch_depth] else []) @ [i]
        in if test_mask_bit msk i = 0
           then predict_inner hb m nrm msk a fa (b + 1) rest
                  (s\<lparr>cnt := i + 1, pairs := pairs s @ [(a, b, i, False)],
                     reads := reads s @ rd\<rparr>)
           else predict_inner hb m nrm msk a fa (b + 1) rest
                  (s\<lparr>cnt := i + 1, pairs := pairs s @ [(a, b, i, True)],
                     reads := reads s @ rd,
                     xmm_total := predict_pair hb m nrm fa fb (xmm_total s)\<rparr>))"

text \<open>
  The outer loop: \<open>pre\<close> holds the features from \<open>start\<close> up to \<open>fa\<close>, the list argument
  those from \<open>fa\<close> to \<open>end\<close>.
\<close>

fun predict_outer ::
  "nat \<Rightarrow> ffm_model \<Rightarrow> ffm_float \<Rightarrow> (nat \<Rightarrow> 64 word) \<Rightarrow> ffm_float \<Rightarrow> ffm_feature list \<Rightarrow>
   ffm_feature list \<Rightarrow> predict_state \<Rightarrow> predict_state" where
  "predict_outer hb m nrm msk linear_norm pre [] s = s"
| "predict_outer hb m nrm msk linear_norm pre (fa # rest) s =
     (let index_a = index_of hb fa;
          s1 = s\<lparr>linear_total :=
                   linear_total s + val fa * linear_weights m (unat (index_a * 2)) / linear_norm\<rparr>
      in if field_of hb fa < min_a_field m
         then predict_outer hb m nrm msk linear_norm (pre @ [fa]) rest s1
         else predict_outer hb m nrm msk linear_norm (pre @ [fa]) rest
                (predict_inner hb m nrm msk (length pre) fa 0 pre s1))"

definition predict_loop ::
  "nat \<Rightarrow> ffm_model \<Rightarrow> ffm_feature list \<Rightarrow> ffm_float \<Rightarrow> (nat \<Rightarrow> 64 word) \<Rightarrow> predict_state" where
  "predict_loop hb m fs nrm msk =
     predict_outer hb m nrm msk (real (length fs)) [] fs
       \<lparr>cnt = 0, pairs = [], reads = [],
        xmm_total = mm256_set1_ps (bias_w m), linear_total = 0\<rparr>"

definition predict ::
  "nat \<Rightarrow> ffm_model \<Rightarrow> ffm_feature list \<Rightarrow> ffm_float \<Rightarrow> (nat \<Rightarrow> 64 word) \<Rightarrow> ffm_float" where
  "predict hb m fs nrm msk =
     (let s = predict_loop hb m fs nrm msk in sum_m256 (xmm_total s) + linear_total s)"

section \<open>update\<close>

text \<open>One pass of the lane loop (source lines 233 to 256): eight lanes at offset \<open>d\<close>.\<close>

definition update_lanes ::
  "(ffm_float \<Rightarrow> ffm_float) \<Rightarrow> m256 \<Rightarrow> m256 \<Rightarrow> m256 \<Rightarrow> nat \<Rightarrow> nat \<Rightarrow> buffer \<Rightarrow> nat \<Rightarrow> buffer" where
  "update_lanes rs xmm_eta xmm_lambda xmm_kappa_val wa wb w d =
     (let wga = wa + n_dim_aligned;
          wgb = wb + n_dim_aligned;
          xmm_wa = mm256_load_ps w (wa + d);
          xmm_wb = mm256_load_ps w (wb + d);
          xmm_wga = mm256_load_ps w (wga + d);
          xmm_wgb = mm256_load_ps w (wgb + d);
          xmm_ga = mm256_add_ps (mm256_mul_ps xmm_lambda xmm_wa) (mm256_mul_ps xmm_kappa_val xmm_wb);
          xmm_gb = mm256_add_ps (mm256_mul_ps xmm_lambda xmm_wb) (mm256_mul_ps xmm_kappa_val xmm_wa);
          xmm_wga = mm256_add_ps xmm_wga (mm256_mul_ps xmm_ga xmm_ga);
          xmm_wgb = mm256_add_ps xmm_wgb (mm256_mul_ps xmm_gb xmm_gb);
          xmm_wa = mm256_sub_ps xmm_wa
                     (mm256_mul_ps xmm_eta (mm256_mul_ps (mm256_rsqrt_ps rs xmm_wga) xmm_ga));
          xmm_wb = mm256_sub_ps xmm_wb
                     (mm256_mul_ps xmm_eta (mm256_mul_ps (mm256_rsqrt_ps rs xmm_wgb) xmm_gb));
          w = mm256_store_ps w (wa + d) xmm_wa;
          w = mm256_store_ps w (wb + d) xmm_wb;
          w = mm256_store_ps w (wga + d) xmm_wga;
          w = mm256_store_ps w (wgb + d) xmm_wgb
      in w)"

function update_dims ::
  "(ffm_float \<Rightarrow> ffm_float) \<Rightarrow> m256 \<Rightarrow> m256 \<Rightarrow> m256 \<Rightarrow> nat \<Rightarrow> nat \<Rightarrow> buffer \<Rightarrow> nat \<Rightarrow> buffer" where
  "update_dims rs xmm_eta xmm_lambda xmm_kappa_val wa wb w d =
     (if d < n_dim then
        update_dims rs xmm_eta xmm_lambda xmm_kappa_val wa wb
          (update_lanes rs xmm_eta xmm_lambda xmm_kappa_val wa wb w d) (d + 8)
      else w)"
  by pat_completeness auto
termination
  by (relation "measure (\<lambda>(rs, e, l, k, wa, wb, w, d). n_dim - d)") auto

declare update_dims.simps [simp del]

text \<open>
  The factor of line 230, \<open>kappa * value_a * value_b / norm\<close>, evaluated from left to right
  in single precision. It is a number unless the divisor is zero or a product or the
  quotient leaves the range of single precision: a value whose magnitude reaches
  \<open>2\<^sup>1\<^sup>2\<^sup>8 - 2\<^sup>1\<^sup>0\<^sup>3\<close> rounds to an infinity. In those cases the factor is an infinity or a NaN
  and the result is \<open>None\<close>.
\<close>

definition flt_finite :: "ffm_float \<Rightarrow> bool" where
  "flt_finite x = (\<bar>x\<bar> < 2 ^ 128 - 2 ^ 103)"

definition pair_factor :: "ffm_float \<Rightarrow> ffm_float \<Rightarrow> ffm_float \<Rightarrow> ffm_float \<Rightarrow> ffm_float option" where
  "pair_factor kappa value_a value_b nrm =
     (if nrm \<noteq> 0 \<and> flt_finite (kappa * value_a) \<and> flt_finite (kappa * value_a * value_b) \<and>
         flt_finite (kappa * value_a * value_b / nrm)
      then Some (kappa * value_a * value_b / nrm) else None)"

text \<open>
  The lanes \<open>j\<close> of a block whose accumulator, at offset \<open>wg + j\<close>, is not positive.
\<close>

definition nonpositive_lanes :: "buffer \<Rightarrow> nat \<Rightarrow> nat list" where
  "nonpositive_lanes w wg = filter (\<lambda>j. w (wg + j) \<le> 0) [0..<n_dim_aligned]"

text \<open>
  The interaction code of one pair (source lines 224 to 257). The result is \<open>Inr\<close> of the
  model after the lane loop when every value the loop stores is a number, and \<open>Inl\<close> of
  cells that receive an infinity or a NaN otherwise. There are two such cases.

  With a factor that is not a number, every gradient of the lane loop is an infinity or a
  NaN, and so is every value the loop stores: these are all cells of both blocks.

  The accumulator lanes the loop stores are the arguments it gives to \<open>_mm256_rsqrt_ps\<close>.
  Where such an argument is not positive the instruction gives an infinity or a NaN, and
  the weight of that lane, which is stored after a multiplication with it, is not a number.
\<close>

definition update_pair ::
  "nat \<Rightarrow> (ffm_float \<Rightarrow> ffm_float) \<Rightarrow> ffm_model \<Rightarrow> ffm_float \<Rightarrow> ffm_float \<Rightarrow> ffm_feature \<Rightarrow>
   ffm_feature \<Rightarrow> nat set + ffm_model" where
  "update_pair hb rs m nrm kappa fa fb =
     (let wa = block_offset (index_of hb fa) (field_of hb fb);
          wb = block_offset (index_of hb fb) (field_of hb fa);
          wga = wa + n_dim_aligned;
          wgb = wb + n_dim_aligned
      in case pair_factor kappa (val fa) (val fb) nrm of
           None \<Rightarrow> Inl ({wa..<wa + field_stride} \<union> {wb..<wb + field_stride})
         | Some kv \<Rightarrow>
             let w = update_dims rs (mm256_set1_ps (eta m)) (mm256_set1_ps (lambda m))
                       (mm256_set1_ps kv) wa wb (weights m) 0
             in if nonpositive_lanes w wga = [] \<and> nonpositive_lanes w wgb = []
                then Inr (m\<lparr>weights := w\<rparr>)
                else Inl ((\<lambda>j. wa + j) ` set (nonpositive_lanes w wga) \<union>
                          (\<lambda>j. wb + j) ` set (nonpositive_lanes w wgb)))"

fun update_inner ::
  "nat \<Rightarrow> (ffm_float \<Rightarrow> ffm_float) \<Rightarrow> ffm_float \<Rightarrow> ffm_float \<Rightarrow> (nat \<Rightarrow> 64 word) \<Rightarrow> nat \<Rightarrow>
   ffm_feature \<Rightarrow> nat \<Rightarrow> ffm_feature list \<Rightarrow> update_state \<Rightarrow> update_state" where
  "update_inner hb rs nrm kappa msk a fa b [] s = s"
| "update_inner hb rs nrm kappa msk a fa b (fb # rest) s =
     (if field_of hb fb > max_b_field (model s) then s
      else
        let i = cnt s;
            rd = (if rest \<noteq> [] then [i + prefetch_depth] else []) @ [i]
        in if test_mask_bit msk i = 0
           then update_inner hb rs nrm kappa msk a fa (b + 1) rest
                  (s\<lparr>cnt := i + 1, pairs := pairs s @ [(a, b, i, False)],
                     reads := reads s @ rd\<rparr>)
           else update_inner hb rs nrm kappa msk a fa (b + 1) rest
                  (case update_pair hb rs (model s) nrm kappa fa fb of
                     Inr m' \<Rightarrow>
                       s\<lparr>cnt := i + 1, pairs := pairs s @ [(a, b, i, True)],
                         reads := reads s @ rd, model := m'\<rparr>
                   | Inl cells \<Rightarrow>
                       s\<lparr>cnt := i + 1, pairs := pairs s @ [(a, b, i, True)],
                         reads := reads s @ rd, nonfinite := nonfinite s \<union> cells\<rparr>))"

text \<open>The AdaGrad step of the linear weight of one feature (source lines 193 to 197).\<close>

definition update_linear :: "nat \<Rightarrow> ffm_model \<Rightarrow> ffm_float \<Rightarrow> ffm_float \<Rightarrow> ffm_feature \<Rightarrow> ffm_model" where
  "update_linear hb m kappa linear_norm fa =
     (let index_a = index_of hb fa;
          lw = linear_weights m;
          g = lambda m * lw (unat (index_a * 2)) + kappa * val fa / linear_norm;
          wg = lw (unat (index_a * 2 + 1)) + g * g;
          lw = lw(unat (index_a * 2) := lw (unat (index_a * 2)) - eta m * g / sqrt wg);
          lw = lw(unat (index_a * 2 + 1) := wg)
      in m\<lparr>linear_weights := lw\<rparr>)"

fun update_outer ::
  "nat \<Rightarrow> (ffm_float \<Rightarrow> ffm_float) \<Rightarrow> ffm_float \<Rightarrow> ffm_float \<Rightarrow> (nat \<Rightarrow> 64 word) \<Rightarrow> ffm_float \<Rightarrow>
   ffm_feature list \<Rightarrow> ffm_feature list \<Rightarrow> update_state \<Rightarrow> update_state" where
  "update_outer hb rs nrm kappa msk linear_norm pre [] s = s"
| "update_outer hb rs nrm kappa msk linear_norm pre (fa # rest) s =
     (let s1 = s\<lparr>model := update_linear hb (model s) kappa linear_norm fa\<rparr>
      in if field_of hb fa < min_a_field (model s1)
         then update_outer hb rs nrm kappa msk linear_norm (pre @ [fa]) rest s1
         else update_outer hb rs nrm kappa msk linear_norm (pre @ [fa]) rest
                (update_inner hb rs nrm kappa msk (length pre) fa 0 pre s1))"

definition update_loop ::
  "nat \<Rightarrow> (ffm_float \<Rightarrow> ffm_float) \<Rightarrow> ffm_model \<Rightarrow> ffm_feature list \<Rightarrow> ffm_float \<Rightarrow> ffm_float \<Rightarrow>
   (nat \<Rightarrow> 64 word) \<Rightarrow> update_state" where
  "update_loop hb rs m fs nrm kappa msk =
     update_outer hb rs nrm kappa msk (real (length fs)) [] fs
       \<lparr>cnt = 0, pairs = [], reads = [], model = m, nonfinite = {}\<rparr>"

text \<open>The bias step that ends \<open>update\<close> (source lines 262 and 263).\<close>

definition update_bias :: "ffm_model \<Rightarrow> ffm_float \<Rightarrow> ffm_model" where
  "update_bias m kappa =
     (let m1 = m\<lparr>bias_wg := bias_wg m + kappa\<rparr>
      in m1\<lparr>bias_w := bias_w m1 - eta m1 * kappa / sqrt (bias_wg m1)\<rparr>)"

definition update ::
  "nat \<Rightarrow> (ffm_float \<Rightarrow> ffm_float) \<Rightarrow> ffm_model \<Rightarrow> ffm_feature list \<Rightarrow> ffm_float \<Rightarrow> ffm_float \<Rightarrow>
   (nat \<Rightarrow> 64 word) \<Rightarrow> ffm_model" where
  "update hb rs m fs nrm kappa msk = update_bias (model (update_loop hb rs m fs nrm kappa msk)) kappa"

section \<open>Notions used in the statements\<close>

text \<open>Restricted mode, as the constructor sets it up (source lines 97 to 99).\<close>

definition restricted_mode :: "ffm_model \<Rightarrow> bool" where
  "restricted_mode m = (min_a_field m = 10 \<and> max_b_field m = 19)"

text \<open>Unrestricted mode, as the constructor sets it up (source lines 101 and 102).\<close>

definition unrestricted_mode :: "ffm_model \<Rightarrow> bool" where
  "unrestricted_mode m = (min_a_field m = 0 \<and> max_b_field m = of_nat n_fields)"

text \<open>Two interaction blocks either coincide or do not overlap.\<close>

definition aligned_blocks :: "nat \<Rightarrow> nat \<Rightarrow> bool" where
  "aligned_blocks wa wb = (wa = wb \<or> wa + 32 \<le> wb \<or> wb + 32 \<le> wa)"

text \<open>
  The AdaGrad step of one lane: the gradient \<open>lambda * w_self + kv * w_other\<close>, the
  accumulator after \<open>g_acc += grad\<^sup>2\<close>, and the weight after
  \<open>w_self -= eta * (rs g_acc * grad)\<close>, where \<open>rs\<close> is applied to the accumulator already
  incremented.
\<close>

definition lane_grad :: "real \<Rightarrow> real \<Rightarrow> real \<Rightarrow> real \<Rightarrow> real" where
  "lane_grad l kv w_self w_other = l * w_self + kv * w_other"

definition lane_acc :: "real \<Rightarrow> real \<Rightarrow> real \<Rightarrow> real \<Rightarrow> real \<Rightarrow> real" where
  "lane_acc l kv w_self w_other g_acc = g_acc + (lane_grad l kv w_self w_other)\<^sup>2"

definition lane_step ::
  "(real \<Rightarrow> real) \<Rightarrow> real \<Rightarrow> real \<Rightarrow> real \<Rightarrow> real \<Rightarrow> real \<Rightarrow> real \<Rightarrow> real" where
  "lane_step rs e l kv w_self w_other g_acc =
     w_self - e * (rs (lane_acc l kv w_self w_other g_acc) * lane_grad l kv w_self w_other)"

text \<open>Every AdaGrad accumulator of the model is positive: bias, linear table, interaction blocks.\<close>

definition positive_accumulators :: "ffm_model \<Rightarrow> bool" where
  "positive_accumulators m =
     (0 < bias_wg m \<and> (\<forall>k. 0 < linear_weights m (2 * k + 1)) \<and>
      (\<forall>blk j. j < n_dim_aligned \<longrightarrow> 0 < weights m (blk * field_stride + n_dim_aligned + j)))"

text \<open>
  The padding lanes \<open>[n_dim, n_dim_aligned)\<close> of every interaction block of the weight
  tensor are zero. The tensor has \<open>n_features * n_fields\<close> blocks of \<open>field_stride\<close> cells.
\<close>

definition padding_zero :: "nat \<Rightarrow> buffer \<Rightarrow> bool" where
  "padding_zero hb w =
     (\<forall>blk d. blk < n_features hb * n_fields \<and> n_dim \<le> d \<and> d < n_dim_aligned \<longrightarrow>
        w (blk * field_stride + d) = 0)"

text \<open>The accumulators of every interaction block of the weight tensor are positive.\<close>

definition accumulators_positive :: "nat \<Rightarrow> buffer \<Rightarrow> bool" where
  "accumulators_positive hb w =
     (\<forall>blk j. blk < n_features hb * n_fields \<and> j < n_dim_aligned \<longrightarrow>
        0 < w (blk * field_stride + n_dim_aligned + j))"

text \<open>Every pair of features of the list has a factor that is a number.\<close>

definition finite_factors :: "ffm_float \<Rightarrow> ffm_float \<Rightarrow> ffm_feature list \<Rightarrow> bool" where
  "finite_factors kappa nrm fs =
     (\<forall>fa\<in>set fs. \<forall>fb\<in>set fs. pair_factor kappa (val fa) (val fb) nrm \<noteq> None)"

text \<open>
  The models a program can hold while the weight tensor holds numbers: the constructor's,
  and the result of \<open>update\<close> on such a model when every pair factor of the call is a
  number. The constructor passes the block count to \<open>init_weights\<close> as an \<open>ffm_uint\<close>, so
  the count has to fit in 32 bits for every block to be initialised; and \<open>update\<close> stays
  inside the tensor when every feature carries a valid field id (the caller's contract).
\<close>

inductive reachable :: "nat \<Rightarrow> ffm_model \<Rightarrow> bool" for hb :: nat where
  constructed:
    "n_features hb * n_fields < 2 ^ 32 \<Longrightarrow>
     reachable hb (ffm_model_new hb raw_w raw_l gen restricted eta0 lambda0)"
| updated:
    "reachable hb m \<Longrightarrow> \<forall>f\<in>set fs. unat (field_of hb f) < n_fields \<Longrightarrow>
     finite_factors kappa nrm fs \<Longrightarrow>
     reachable hb (update hb rs m fs nrm kappa msk)"

text \<open>
  The enumeration of pairs in the words of the specification. A feature at position \<open>a\<close>
  acts as outer member only if its field is at least \<open>min_a_field\<close>; its scan runs over the
  positions \<open>b\<close> before \<open>a\<close>, from the first one, and stops at the first \<open>b\<close> whose field
  exceeds \<open>max_b_field\<close>.
\<close>

definition scan :: "nat \<Rightarrow> ffm_model \<Rightarrow> ffm_feature list \<Rightarrow> nat \<Rightarrow> nat list" where
  "scan hb m fs a =
     (if field_of hb (fs ! a) < min_a_field m then []
      else [0..<length (takeWhile (\<lambda>fb. \<not> max_b_field m < field_of hb fb) (take a fs))])"

definition tested_pairs :: "nat \<Rightarrow> ffm_model \<Rightarrow> ffm_feature list \<Rightarrow> (nat \<times> nat) list" where
  "tested_pairs hb m fs = concat (map (\<lambda>a. map (Pair a) (scan hb m fs a)) [0..<length fs])"

text \<open>
  The pair counter numbers the tested pairs in this order, from \<open>i\<close> on; a pair is
  enabled iff the mask bit at its number is set. A visit is (position of \<open>a\<close>, position
  of \<open>b\<close>, counter, enabled).
\<close>

definition visits_from :: "(nat \<Rightarrow> 64 word) \<Rightarrow> ffm_uint \<Rightarrow> (nat \<times> nat) list \<Rightarrow> visit list" where
  "visits_from msk i ps =
     map (\<lambda>(k, (a, b)). (a, b, i + word_of_nat k, test_mask_bit msk (i + word_of_nat k) \<noteq> 0))
       (enumerate 0 ps)"

definition spec_visits :: "nat \<Rightarrow> ffm_model \<Rightarrow> ffm_feature list \<Rightarrow> (nat \<Rightarrow> 64 word) \<Rightarrow> visit list" where
  "spec_visits hb m fs msk = visits_from msk 0 (tested_pairs hb m fs)"

text \<open>
  What the visits amount to: the interaction code of \<open>predict\<close>, respectively of \<open>update\<close>,
  applied for the enabled visits in order and for no other. (Where the interaction code of
  \<open>update\<close> stores values that are not numbers, the buffer of the model stays as it is.)
\<close>

definition replay_predict ::
  "nat \<Rightarrow> ffm_model \<Rightarrow> ffm_float \<Rightarrow> ffm_feature list \<Rightarrow> visit list \<Rightarrow> m256 \<Rightarrow> m256" where
  "replay_predict hb m nrm fs vs t =
     fold (\<lambda>(a, b, i, on) t. if on then predict_pair hb m nrm (fs ! a) (fs ! b) t else t) vs t"

definition replay_update ::
  "nat \<Rightarrow> (ffm_float \<Rightarrow> ffm_float) \<Rightarrow> ffm_float \<Rightarrow> ffm_float \<Rightarrow> ffm_feature list \<Rightarrow> visit list \<Rightarrow>
   ffm_model \<Rightarrow> ffm_model" where
  "replay_update hb rs nrm kappa fs vs m =
     fold (\<lambda>(a, b, i, on) m.
             if on then (case update_pair hb rs m nrm kappa (fs ! a) (fs ! b) of
                           Inr m' \<Rightarrow> m' | Inl cells \<Rightarrow> m)
             else m) vs m"

text \<open>
  Auxiliary notions of the proofs: the tested pairs by recursion along the outer loop,
  and two models that agree on what the interaction code reads.
\<close>

fun rows :: "nat \<Rightarrow> ffm_model \<Rightarrow> ffm_feature list \<Rightarrow> ffm_feature list \<Rightarrow> (nat \<times> nat) list" where
  "rows hb m pre [] = []"
| "rows hb m pre (fa # rest) =
     (if field_of hb fa < min_a_field m then []
      else map (Pair (length pre))
             [0..<length (takeWhile (\<lambda>fb. \<not> max_b_field m < field_of hb fb) pre)])
     @ rows hb m (pre @ [fa]) rest"

definition same_factors :: "ffm_model \<Rightarrow> ffm_model \<Rightarrow> bool" where
  "same_factors m1 m2 = (weights m1 = weights m2 \<and> eta m1 = eta m2 \<and> lambda m1 = lambda m2)"

definition example_features :: "ffm_feature list" where
  "example_features =
     [\<lparr>index = 12582917, val = 1\<rparr>, \<lparr>index = 26214409, val = 2\<rparr>,
      \<lparr>index = 15728647, val = 1\<rparr>, \<lparr>index = 3145733, val = 1\<rparr>]"

text \<open>A model state and a loop state for concrete runs.\<close>

definition example_model :: ffm_model where
  "example_model =
     \<lparr>eta = 1, lambda = 0, max_b_field = 30, min_a_field = 0, bias_w = 0, bias_wg = 1,
      weights = (\<lambda>x. if x mod 32 < 16 then 1 else 3),
      linear_weights = (\<lambda>x. if even x then 0 else 1)\<rparr>"


text \<open>
  A reciprocal square root within the documented accuracy that is not exact: it is low by
  one part in 4096, and gives \<open>4095 / 8192\<close> at 4.
\<close>

definition example_rsqrt :: "ffm_float \<Rightarrow> ffm_float" where
  "example_rsqrt x = 4095 / 4096 * (1 / sqrt x)"

text \<open>A mask whose words are all 1 (bit 0 of each word set), a raw buffer and a draw sequence.\<close>

definition example_mask :: "nat \<Rightarrow> 64 word" where
  "example_mask k = 1"

definition example_raw :: buffer where
  "example_raw x = 7"

definition example_gen :: "nat \<Rightarrow> ffm_float" where
  "example_gen k = 1 / 4"

section \<open>Frame facts of the update loops\<close>

text \<open>What each part of \<open>update\<close> leaves untouched, and the two cells the bias step writes.\<close>

lemma update_pair_frame:
  assumes "update_pair hb rs m nrm kappa fa fb = Inr m'"
  shows "eta m' = eta m" "lambda m' = lambda m" "max_b_field m' = max_b_field m"
    "min_a_field m' = min_a_field m" "bias_w m' = bias_w m" "bias_wg m' = bias_wg m"
    "linear_weights m' = linear_weights m"
  using assms by (auto simp: update_pair_def Let_def split: option.splits if_splits)

lemma update_linear_frame:
  "eta (update_linear hb m kappa lnorm fa) = eta m"
  "lambda (update_linear hb m kappa lnorm fa) = lambda m"
  "max_b_field (update_linear hb m kappa lnorm fa) = max_b_field m"
  "min_a_field (update_linear hb m kappa lnorm fa) = min_a_field m"
  "bias_w (update_linear hb m kappa lnorm fa) = bias_w m"
  "bias_wg (update_linear hb m kappa lnorm fa) = bias_wg m"
  "weights (update_linear hb m kappa lnorm fa) = weights m"
  by (simp_all add: update_linear_def Let_def)

lemma update_inner_frame:
  "eta (model (update_inner hb rs nrm kappa msk a fa b bs s)) = eta (model s) \<and>
   lambda (model (update_inner hb rs nrm kappa msk a fa b bs s)) = lambda (model s) \<and>
   max_b_field (model (update_inner hb rs nrm kappa msk a fa b bs s)) = max_b_field (model s) \<and>
   min_a_field (model (update_inner hb rs nrm kappa msk a fa b bs s)) = min_a_field (model s) \<and>
   bias_w (model (update_inner hb rs nrm kappa msk a fa b bs s)) = bias_w (model s) \<and>
   bias_wg (model (update_inner hb rs nrm kappa msk a fa b bs s)) = bias_wg (model s) \<and>
   linear_weights (model (update_inner hb rs nrm kappa msk a fa b bs s)) = linear_weights (model s)"
  by (induction bs arbitrary: b s) (simp_all add: Let_def update_pair_frame split: sum.splits)

lemma update_outer_frame:
  "eta (model (update_outer hb rs nrm kappa msk lnorm pre fs s)) = eta (model s) \<and>
   lambda (model (update_outer hb rs nrm kappa msk lnorm pre fs s)) = lambda (model s) \<and>
   max_b_field (model (update_outer hb rs nrm kappa msk lnorm pre fs s)) = max_b_field (model s) \<and>
   min_a_field (model (update_outer hb rs nrm kappa msk lnorm pre fs s)) = min_a_field (model s) \<and>
   bias_w (model (update_outer hb rs nrm kappa msk lnorm pre fs s)) = bias_w (model s) \<and>
   bias_wg (model (update_outer hb rs nrm kappa msk lnorm pre fs s)) = bias_wg (model s)"
  by (induction fs arbitrary: pre s) (simp_all add: Let_def update_inner_frame update_linear_frame)

lemma update_bias_cells:
  "bias_wg (update hb rs m fs nrm kappa msk) = bias_wg m + kappa"
  "bias_w (update hb rs m fs nrm kappa msk) = bias_w m - eta m * kappa / sqrt (bias_wg m + kappa)"
  by (simp_all add: update_def update_bias_def update_loop_def Let_def update_outer_frame)

section \<open>Vector lanes\<close>

text \<open>The intrinsics lane by lane, the horizontal sum, and the two passes of the lane loop of \<open>predict\<close>.\<close>

lemma length_mm256 [simp]:
  "length (mm256_set1_ps x) = 8"
  "length (mm256_load_ps w p) = 8"
  "length (mm256_add_ps a b) = min (length a) (length b)"
  "length (mm256_sub_ps a b) = min (length a) (length b)"
  "length (mm256_mul_ps a b) = min (length a) (length b)"
  "length (mm256_rsqrt_ps rs a) = length a"
  by (simp_all add: mm256_set1_ps_def mm256_load_ps_def mm256_add_ps_def mm256_sub_ps_def
      mm256_mul_ps_def mm256_rsqrt_ps_def)

lemma nth_mm256:
  "k < 8 \<Longrightarrow> mm256_set1_ps x ! k = x"
  "k < 8 \<Longrightarrow> mm256_load_ps w p ! k = w (p + k)"
  "k < length a \<Longrightarrow> k < length b \<Longrightarrow> mm256_add_ps a b ! k = a ! k + b ! k"
  "k < length a \<Longrightarrow> k < length b \<Longrightarrow> mm256_sub_ps a b ! k = a ! k - b ! k"
  "k < length a \<Longrightarrow> k < length b \<Longrightarrow> mm256_mul_ps a b ! k = a ! k * b ! k"
  "k < length a \<Longrightarrow> mm256_rsqrt_ps rs a ! k = rs (a ! k)"
  by (simp_all add: mm256_set1_ps_def mm256_load_ps_def mm256_add_ps_def mm256_sub_ps_def
      mm256_mul_ps_def mm256_rsqrt_ps_def)

lemma sum_m256_lanes:
  assumes "length v = 8"
  shows "sum_m256 v = ((v ! 0 + v ! 4) + (v ! 1 + v ! 5)) + ((v ! 2 + v ! 6) + (v ! 3 + v ! 7))"
  using assms
  by (simp add: sum_m256_def mm256_extractf128_ps_def mm256_permute2f128_ps_def select128_def
      mm_hadd_ps_def mm_store_ss_def mm256_add_ps_def Let_def nth_append)

lemma sum_m256_set1: "sum_m256 (mm256_set1_ps x) = 8 * x"
  by (simp add: sum_m256_lanes nth_mm256)

lemma predict_dims_unfold:
  "predict_dims w wa wb xmm_val tot 0 =
     mm256_add_ps
       (mm256_add_ps tot (mm256_mul_ps (mm256_mul_ps (mm256_load_ps w wa) (mm256_load_ps w wb)) xmm_val))
       (mm256_mul_ps (mm256_mul_ps (mm256_load_ps w (wa + 8)) (mm256_load_ps w (wb + 8))) xmm_val)"
  by (subst predict_dims.simps, subst predict_dims.simps, subst predict_dims.simps)
    (simp add: n_dim_def Let_def)

lemma predict_inner_linear_total [simp]:
  "linear_total (predict_inner hb m nrm msk a fa b bs s) = linear_total s"
  by (induction bs arbitrary: b s) (simp_all add: Let_def)

lemma predict_outer_linear_total:
  "linear_total (predict_outer hb m nrm msk lnorm pre fs s) =
     linear_total s + (\<Sum>f\<leftarrow>fs. val f * linear_weights m (unat (index_of hb f * 2)) / lnorm)"
  by (induction fs arbitrary: pre s) (simp_all add: Let_def)

lemma test_mask_bit_zero [simp]: "test_mask_bit (\<lambda>_. 0) i = 0"
  by (simp add: test_mask_bit_def)

lemma predict_inner_zero_mask:
  "xmm_total (predict_inner hb m nrm (\<lambda>_. 0) a fa b bs s) = xmm_total s"
  by (induction bs arbitrary: b s) (simp_all add: Let_def)

lemma predict_outer_zero_mask:
  "xmm_total (predict_outer hb m nrm (\<lambda>_. 0) lnorm pre fs s) = xmm_total s"
  by (induction fs arbitrary: pre s) (simp_all add: Let_def predict_inner_zero_mask)

lemma predict_zero_mask:
  "predict hb m fs nrm (\<lambda>_. 0) = 8 * bias_w m +
     (\<Sum>f\<leftarrow>fs. val f * linear_weights m (unat (index_of hb f * 2)) / real (length fs))"
  by (simp add: predict_def Let_def predict_loop_def predict_outer_zero_mask sum_m256_set1
      predict_outer_linear_total)

lemma mask_hash: "ffm_hash_mask hb = mask hb"
  by (simp add: ffm_hash_mask_def mask_eq_exp_minus_1 push_bit_eq_mult)

section \<open>The linear term of predict\<close>

text \<open>
  C8. In \<open>predict\<close>, every feature \<open>(idx, value)\<close> adds
  \<open>value * linear_weight[idx & hash_mask] / count\<close> to the linear term, \<open>count\<close> being the
  number of features of the list and not \<open>norm\<close>; this holds for every feature, also for
  those whose field is below \<open>min_a_field\<close>. The weight of feature id \<open>k\<close> is cell \<open>2 * k\<close>
  of the linear table, whose cells alternate weight and accumulator.
\<close>

theorem predict_linear_term:
  "linear_total (predict_loop hb m fs nrm msk) =
     (\<Sum>f\<leftarrow>fs. val f * linear_weights m (unat ((index f AND ffm_hash_mask hb) * 2)) / real (length fs))"
  by (simp add: predict_loop_def predict_outer_linear_total index_of_def)

section \<open>predict under the all-zero mask\<close>

text \<open>
  C1. For a non-empty feature list, any norm and the all-zero mask, \<open>predict\<close> is to return
  the bias weight plus the linear term, the bias counted once. The accumulator starts with
  the bias in each of its eight lanes and \<open>sum\<close> adds the eight lanes, so the code returns
  eight times the bias plus the linear term (lemma \<open>predict_zero_mask\<close>). The run below
  is a model fresh from the constructor after one \<open>update\<close> with \<open>kappa = - 3 / 4\<close>: its bias
  weight is \<open>3 / 2\<close>, the linear term of the example is \<open>0\<close>, and \<open>predict\<close> returns \<open>12\<close>.
\<close>

theorem predict_zero_mask_counts_bias_eight_times:
  "predict 20
     (update 20 example_rsqrt (ffm_model_new 20 (\<lambda>_. 0) (\<lambda>_. 0) (\<lambda>_. 0) False 1 0)
        [\<lparr>index = 5, val = 0\<rparr>] 1 (- 3 / 4) (\<lambda>_. 0))
     [\<lparr>index = 5, val = 0\<rparr>] 1 (\<lambda>_. 0) = 12 \<and>
   bias_w (update 20 example_rsqrt (ffm_model_new 20 (\<lambda>_. 0) (\<lambda>_. 0) (\<lambda>_. 0) False 1 0)
        [\<lparr>index = 5, val = 0\<rparr>] 1 (- 3 / 4) (\<lambda>_. 0)) = 3 / 2 \<and>
   linear_total (predict_loop 20
     (update 20 example_rsqrt (ffm_model_new 20 (\<lambda>_. 0) (\<lambda>_. 0) (\<lambda>_. 0) False 1 0)
        [\<lparr>index = 5, val = 0\<rparr>] 1 (- 3 / 4) (\<lambda>_. 0))
     [\<lparr>index = 5, val = 0\<rparr>] 1 (\<lambda>_. 0)) = 0"
proof -
  let ?m = "update 20 example_rsqrt (ffm_model_new 20 (\<lambda>_. 0) (\<lambda>_. 0) (\<lambda>_. 0) False 1 0)
        [\<lparr>index = 5, val = 0\<rparr>] 1 (- 3 / 4) (\<lambda>_. 0)"
  have b: "bias_w ?m = 3 / 2"
    by (simp add: update_bias_cells ffm_model_new_def real_sqrt_divide)
  have p: "predict 20 ?m [\<lparr>index = 5, val = 0\<rparr>] 1 (\<lambda>_. 0) = 8 * bias_w ?m"
    by (simp add: predict_zero_mask)
  have l: "linear_total (predict_loop 20 ?m [\<lparr>index = 5, val = 0\<rparr>] 1 (\<lambda>_. 0)) = 0"
    unfolding predict_loop_def predict_outer_linear_total by simp
  from b p l show ?thesis by simp
qed

section \<open>Restricted mode\<close>

lemma predict_outer_skip_all:
  "\<forall>f\<in>set fs. field_of hb f < min_a_field m \<Longrightarrow>
   cnt (predict_outer hb m nrm msk lnorm pre fs s) = cnt s \<and>
   pairs (predict_outer hb m nrm msk lnorm pre fs s) = pairs s \<and>
   reads (predict_outer hb m nrm msk lnorm pre fs s) = reads s \<and>
   xmm_total (predict_outer hb m nrm msk lnorm pre fs s) = xmm_total s"
  by (induction fs arbitrary: pre s) (simp_all add: Let_def)

lemma restricted_new: "restricted_mode (ffm_model_new hb raw_w raw_l gen True e l)"
  by (simp add: restricted_mode_def ffm_model_new_def)

text \<open>
  C6. In restricted mode (\<open>min_a_field = 10\<close>, \<open>max_b_field = 19\<close>), when every feature
  of the list has a field below 10, \<open>predict\<close> enumerates no pair, consults no mask bit and
  leaves the interaction accumulator at its initial value, whatever the mask and the norm;
  its result is the one it gives under the all-zero mask.
\<close>

theorem restricted_low_fields:
  assumes "restricted_mode m" and "\<forall>f\<in>set fs. field_of hb f < 10"
  shows "pairs (predict_loop hb m fs nrm msk) = [] \<and>
         reads (predict_loop hb m fs nrm msk) = [] \<and>
         cnt (predict_loop hb m fs nrm msk) = 0 \<and>
         xmm_total (predict_loop hb m fs nrm msk) = mm256_set1_ps (bias_w m) \<and>
         predict hb m fs nrm msk = predict hb m fs nrm (\<lambda>_. 0)"
proof -
  from assms have low: "\<forall>f\<in>set fs. field_of hb f < min_a_field m"
    by (simp add: restricted_mode_def)
  have "linear_total (predict_loop hb m fs nrm msk) = linear_total (predict_loop hb m fs nrm (\<lambda>_. 0))"
    by (simp add: predict_loop_def predict_outer_linear_total)
  with low show ?thesis
    by (simp add: predict_def Let_def predict_loop_def predict_outer_skip_all)
qed

theorem restricted_low_fields_witness:
  "restricted_mode (ffm_model_new 20 (\<lambda>_. 0) (\<lambda>_. 0) (\<lambda>_. 1) True 1 0) \<and>
   field_of 20 \<lparr>index = 3145733, val = 1\<rparr> < 10 \<and>
   field_of 20 \<lparr>index = 9437191, val = 2\<rparr> < 10 \<and>
   pairs (predict_loop 20 (ffm_model_new 20 (\<lambda>_. 0) (\<lambda>_. 0) (\<lambda>_. 1) True 1 0)
      [\<lparr>index = 3145733, val = 1\<rparr>, \<lparr>index = 9437191, val = 2\<rparr>] 1 (\<lambda>_. - 1)) = [] \<and>
   reads (predict_loop 20 (ffm_model_new 20 (\<lambda>_. 0) (\<lambda>_. 0) (\<lambda>_. 1) True 1 0)
      [\<lparr>index = 3145733, val = 1\<rparr>, \<lparr>index = 9437191, val = 2\<rparr>] 1 (\<lambda>_. - 1)) = [] \<and>
   cnt (predict_loop 20 (ffm_model_new 20 (\<lambda>_. 0) (\<lambda>_. 0) (\<lambda>_. 1) True 1 0)
      [\<lparr>index = 3145733, val = 1\<rparr>, \<lparr>index = 9437191, val = 2\<rparr>] 1 (\<lambda>_. - 1)) = 0"
proof -
  have r: "restricted_mode (ffm_model_new 20 (\<lambda>_. 0) (\<lambda>_. 0) (\<lambda>_. 1) True 1 0)"
    by (rule restricted_new)
  have f: "field_of 20 \<lparr>index = 3145733, val = 1\<rparr> < 10"
    "field_of 20 \<lparr>index = 9437191, val = 2\<rparr> < 10"
    by (simp_all add: field_of_def)
  then have fs: "\<forall>f\<in>set [\<lparr>index = 3145733, val = 1\<rparr>, \<lparr>index = 9437191, val = 2\<rparr>]. field_of 20 f < 10"
    by simp
  from restricted_low_fields [OF r fs, of 1 "\<lambda>_. - 1"] r f show ?thesis by simp
qed

section \<open>Lockstep of the two passes\<close>

text \<open>
  Started from equal counters and histories, the inner loops of \<open>predict\<close> and \<open>update\<close>
  end with equal counters and histories, and so do the outer loops. The model that
  \<open>update\<close> changes under way keeps its field bounds.
\<close>

lemma inner_lockstep:
  "cnt ps = cnt us \<Longrightarrow> pairs ps = pairs us \<Longrightarrow> reads ps = reads us \<Longrightarrow>
   max_b_field m = max_b_field (model us) \<Longrightarrow>
   cnt (predict_inner hb m nrm msk a fa b bs ps) = cnt (update_inner hb rs nrm kappa msk a fa b bs us) \<and>
   pairs (predict_inner hb m nrm msk a fa b bs ps) = pairs (update_inner hb rs nrm kappa msk a fa b bs us) \<and>
   reads (predict_inner hb m nrm msk a fa b bs ps) = reads (update_inner hb rs nrm kappa msk a fa b bs us)"
proof (induction bs arbitrary: b ps us)
  case Nil
  then show ?case by simp
next
  case (Cons fb rest)
  show ?case
  proof (cases "field_of hb fb > max_b_field m")
    case True
    with Cons.prems show ?thesis by simp
  next
    case False
    with Cons.prems show ?thesis
      by (simp add: Let_def Cons.IH update_pair_frame split: sum.splits)
  qed
qed

lemma outer_lockstep:
  "cnt ps = cnt us \<Longrightarrow> pairs ps = pairs us \<Longrightarrow> reads ps = reads us \<Longrightarrow>
   max_b_field m = max_b_field (model us) \<Longrightarrow> min_a_field m = min_a_field (model us) \<Longrightarrow>
   cnt (predict_outer hb m nrm msk lnorm pre fs ps) = cnt (update_outer hb rs nrm kappa msk lnorm pre fs us) \<and>
   pairs (predict_outer hb m nrm msk lnorm pre fs ps) = pairs (update_outer hb rs nrm kappa msk lnorm pre fs us) \<and>
   reads (predict_outer hb m nrm msk lnorm pre fs ps) = reads (update_outer hb rs nrm kappa msk lnorm pre fs us)"
proof (induction fs arbitrary: pre ps us)
  case Nil
  then show ?case by simp
next
  case (Cons fa rest)
  let ?ps1 = "ps\<lparr>linear_total :=
      linear_total ps + val fa * linear_weights m (unat (index_of hb fa * 2)) / lnorm\<rparr>"
  let ?us1 = "us\<lparr>model := update_linear hb (model us) kappa lnorm fa\<rparr>"
  have fr: "max_b_field m = max_b_field (model ?us1)" "min_a_field m = min_a_field (model ?us1)"
    using Cons.prems by (simp_all add: update_linear_frame)
  have tr: "cnt ?ps1 = cnt ?us1" "pairs ?ps1 = pairs ?us1" "reads ?ps1 = reads ?us1"
    using Cons.prems by simp_all
  show ?case
  proof (cases "field_of hb fa < min_a_field m")
    case True
    with fr show ?thesis
      using Cons.IH [OF tr fr, of "pre @ [fa]"] by (simp add: Let_def)
  next
    case False
    let ?ps2 = "predict_inner hb m nrm msk (length pre) fa 0 pre ?ps1"
    let ?us2 = "update_inner hb rs nrm kappa msk (length pre) fa 0 pre ?us1"
    have in2: "cnt ?ps2 = cnt ?us2" "pairs ?ps2 = pairs ?us2" "reads ?ps2 = reads ?us2"
      using inner_lockstep [OF tr fr(1)] by simp_all
    have fr2: "max_b_field m = max_b_field (model ?us2)" "min_a_field m = min_a_field (model ?us2)"
      using fr by (simp_all add: update_inner_frame)
    from False fr show ?thesis
      using Cons.IH [OF in2 fr2, of "pre @ [fa]"] by (simp add: Let_def)
  qed
qed

section \<open>The lane loop of update\<close>

text \<open>
  The lane loop runs twice, for \<open>d = 0\<close> and \<open>d = 8\<close>, and so covers the \<open>n_dim_aligned\<close>
  lanes of both blocks. Block offsets are multiples of the block size, hence two blocks
  coincide or are disjoint; under that condition each lane of each block ends with the
  AdaGrad step computed from the buffer as it was before the loop.
\<close>

lemma n_dim_aligned_16: "n_dim_aligned = 16"
  by (simp add: n_dim_aligned_def n_dim_def align_floats_def align_bytes_def)

lemma strides: "field_stride = 32" "index_stride = 960"
  by (simp_all add: field_stride_def index_stride_def n_fields_def n_dim_aligned_16)

lemma block_offset_32: "block_offset idx fld = 32 * (30 * unat idx + unat fld)"
  by (simp add: block_offset_def strides)

lemma aligned_32: "aligned_blocks (32 * p) (32 * q)"
proof -
  consider "p = q" | "Suc p \<le> q" | "Suc q \<le> p" by linarith
  then show ?thesis
  proof cases
    case 1
    then show ?thesis by (simp add: aligned_blocks_def)
  next
    case 2
    then have "32 * Suc p \<le> 32 * q" by (rule mult_le_mono2)
    then show ?thesis by (simp add: aligned_blocks_def)
  next
    case 3
    then have "32 * Suc q \<le> 32 * p" by (rule mult_le_mono2)
    then show ?thesis by (simp add: aligned_blocks_def)
  qed
qed

lemma aligned_block_offsets: "aligned_blocks (block_offset i f) (block_offset j g)"
  unfolding block_offset_32 by (rule aligned_32)

lemma store_in: "p \<le> x \<Longrightarrow> x < p + 8 \<Longrightarrow> mm256_store_ps w p v x = v ! (x - p)"
  by (simp add: mm256_store_ps_def)

lemma store_out: "\<not> (p \<le> x \<and> x < p + 8) \<Longrightarrow> mm256_store_ps w p v x = w x"
  by (auto simp: mm256_store_ps_def)

lemma update_lanes_outside:
  assumes "\<not> (wa + d \<le> x \<and> x < wa + d + 8)" "\<not> (wb + d \<le> x \<and> x < wb + d + 8)"
    "\<not> (wa + 16 + d \<le> x \<and> x < wa + 16 + d + 8)" "\<not> (wb + 16 + d \<le> x \<and> x < wb + 16 + d + 8)"
  shows "update_lanes rs E L K wa wb w d x = w x"
  using assms by (simp add: update_lanes_def Let_def store_out n_dim_aligned_16)

lemma update_lanes_acc_b:
  assumes "k < 8"
  shows "update_lanes rs (mm256_set1_ps e) (mm256_set1_ps l) (mm256_set1_ps kv) wa wb w d (wb + 16 + d + k) =
           w (wb + 16 + d + k) + (lane_grad l kv (w (wb + d + k)) (w (wa + d + k)))\<^sup>2"
  using assms
  by (simp add: update_lanes_def Let_def store_in nth_mm256 lane_grad_def power2_eq_square
      n_dim_aligned_16 add.assoc)

lemma update_lanes_acc_a:
  assumes "k < 8" "aligned_blocks wa wb"
  shows "update_lanes rs (mm256_set1_ps e) (mm256_set1_ps l) (mm256_set1_ps kv) wa wb w d (wa + 16 + d + k) =
           w (wa + 16 + d + k) + (lane_grad l kv (w (wa + d + k)) (w (wb + d + k)))\<^sup>2"
proof (cases "wa = wb")
  case True
  with assms(1) show ?thesis by (simp add: update_lanes_acc_b)
next
  case False
  with assms have out: "\<not> (wb + 16 + d \<le> wa + 16 + d + k \<and> wa + 16 + d + k < wb + 16 + d + 8)"
    by (auto simp: aligned_blocks_def)
  have "update_lanes rs (mm256_set1_ps e) (mm256_set1_ps l) (mm256_set1_ps kv) wa wb w d (wa + 16 + d + k) =
     mm256_add_ps (mm256_load_ps w (wa + 16 + d))
       (mm256_mul_ps
         (mm256_add_ps (mm256_mul_ps (mm256_set1_ps l) (mm256_load_ps w (wa + d)))
            (mm256_mul_ps (mm256_set1_ps kv) (mm256_load_ps w (wb + d))))
         (mm256_add_ps (mm256_mul_ps (mm256_set1_ps l) (mm256_load_ps w (wa + d)))
            (mm256_mul_ps (mm256_set1_ps kv) (mm256_load_ps w (wb + d))))) ! k"
    unfolding update_lanes_def Let_def n_dim_aligned_16
    using assms(1) by (subst store_out [OF out]) (simp add: store_in)
  with assms(1) show ?thesis
    by (simp add: nth_mm256 lane_grad_def power2_eq_square add.assoc)
qed

lemma update_lanes_w_b:
  assumes "k < 8" "aligned_blocks wa wb"
  shows "update_lanes rs (mm256_set1_ps e) (mm256_set1_ps l) (mm256_set1_ps kv) wa wb w d (wb + d + k) =
           lane_step rs e l kv (w (wb + d + k)) (w (wa + d + k)) (w (wb + 16 + d + k))"
proof -
  from assms have out1: "\<not> (wb + 16 + d \<le> wb + d + k \<and> wb + d + k < wb + 16 + d + 8)"
    and out2: "\<not> (wa + 16 + d \<le> wb + d + k \<and> wb + d + k < wa + 16 + d + 8)"
    by (auto simp: aligned_blocks_def)
  have "update_lanes rs (mm256_set1_ps e) (mm256_set1_ps l) (mm256_set1_ps kv) wa wb w d (wb + d + k) =
     mm256_sub_ps (mm256_load_ps w (wb + d))
       (mm256_mul_ps (mm256_set1_ps e)
         (mm256_mul_ps
           (mm256_rsqrt_ps rs
             (mm256_add_ps (mm256_load_ps w (wb + 16 + d))
               (mm256_mul_ps
                 (mm256_add_ps (mm256_mul_ps (mm256_set1_ps l) (mm256_load_ps w (wb + d)))
                    (mm256_mul_ps (mm256_set1_ps kv) (mm256_load_ps w (wa + d))))
                 (mm256_add_ps (mm256_mul_ps (mm256_set1_ps l) (mm256_load_ps w (wb + d)))
                    (mm256_mul_ps (mm256_set1_ps kv) (mm256_load_ps w (wa + d)))))))
           (mm256_add_ps (mm256_mul_ps (mm256_set1_ps l) (mm256_load_ps w (wb + d)))
              (mm256_mul_ps (mm256_set1_ps kv) (mm256_load_ps w (wa + d)))))) ! k"
    unfolding update_lanes_def Let_def n_dim_aligned_16
    using assms(1)
    by (subst store_out [OF out1], subst store_out [OF out2]) (simp add: store_in)
  with assms(1) show ?thesis
    by (simp add: nth_mm256 lane_step_def lane_acc_def lane_grad_def add.assoc power2_eq_square)
qed

lemma update_lanes_w_a:
  assumes "k < 8" "aligned_blocks wa wb"
  shows "update_lanes rs (mm256_set1_ps e) (mm256_set1_ps l) (mm256_set1_ps kv) wa wb w d (wa + d + k) =
           lane_step rs e l kv (w (wa + d + k)) (w (wb + d + k)) (w (wa + 16 + d + k))"
proof (cases "wa = wb")
  case True
  with assms show ?thesis by (simp add: update_lanes_w_b)
next
  case False
  with assms have out1: "\<not> (wb + 16 + d \<le> wa + d + k \<and> wa + d + k < wb + 16 + d + 8)"
    and out2: "\<not> (wa + 16 + d \<le> wa + d + k \<and> wa + d + k < wa + 16 + d + 8)"
    and out3: "\<not> (wb + d \<le> wa + d + k \<and> wa + d + k < wb + d + 8)"
    by (auto simp: aligned_blocks_def)
  have "update_lanes rs (mm256_set1_ps e) (mm256_set1_ps l) (mm256_set1_ps kv) wa wb w d (wa + d + k) =
     mm256_sub_ps (mm256_load_ps w (wa + d))
       (mm256_mul_ps (mm256_set1_ps e)
         (mm256_mul_ps
           (mm256_rsqrt_ps rs
             (mm256_add_ps (mm256_load_ps w (wa + 16 + d))
               (mm256_mul_ps
                 (mm256_add_ps (mm256_mul_ps (mm256_set1_ps l) (mm256_load_ps w (wa + d)))
                    (mm256_mul_ps (mm256_set1_ps kv) (mm256_load_ps w (wb + d))))
                 (mm256_add_ps (mm256_mul_ps (mm256_set1_ps l) (mm256_load_ps w (wa + d)))
                    (mm256_mul_ps (mm256_set1_ps kv) (mm256_load_ps w (wb + d)))))))
           (mm256_add_ps (mm256_mul_ps (mm256_set1_ps l) (mm256_load_ps w (wa + d)))
              (mm256_mul_ps (mm256_set1_ps kv) (mm256_load_ps w (wb + d)))))) ! k"
    unfolding update_lanes_def Let_def n_dim_aligned_16
    using assms(1)
    by (subst store_out [OF out1], subst store_out [OF out2], subst store_out [OF out3])
      (simp add: store_in)
  with assms(1) show ?thesis
    by (simp add: nth_mm256 lane_step_def lane_acc_def lane_grad_def add.assoc power2_eq_square)
qed

lemma update_lanes_acc_a': 
  assumes "k < 8" "aligned_blocks wa wb"
  shows "update_lanes rs (mm256_set1_ps e) (mm256_set1_ps l) (mm256_set1_ps kv) wa wb w d (wa + 16 + d + k) =
           lane_acc l kv (w (wa + d + k)) (w (wb + d + k)) (w (wa + 16 + d + k))"
  using update_lanes_acc_a [OF assms] by (simp add: lane_acc_def)

lemma update_lanes_acc_b': 
  assumes "k < 8"
  shows "update_lanes rs (mm256_set1_ps e) (mm256_set1_ps l) (mm256_set1_ps kv) wa wb w d (wb + 16 + d + k) =
           lane_acc l kv (w (wb + d + k)) (w (wa + d + k)) (w (wb + 16 + d + k))"
  using update_lanes_acc_b [OF assms] by (simp add: lane_acc_def)

lemma update_dims_unfold:
  "update_dims rs E L K wa wb w 0 = update_lanes rs E L K wa wb (update_lanes rs E L K wa wb w 0) 8"
  by (subst update_dims.simps, subst update_dims.simps, subst update_dims.simps)
    (simp add: n_dim_def)

lemma update_lanes_outside_blocks:
  assumes "x < wa + d \<or> wa + d + 8 \<le> x" "x < wb + d \<or> wb + d + 8 \<le> x"
    "x < wa + 16 + d \<or> wa + 16 + d + 8 \<le> x" "x < wb + 16 + d \<or> wb + 16 + d + 8 \<le> x"
  shows "update_lanes rs E L K wa wb w d x = w x"
proof (rule update_lanes_outside)
  show "\<not> (wa + d \<le> x \<and> x < wa + d + 8)" using assms(1) by linarith
  show "\<not> (wb + d \<le> x \<and> x < wb + d + 8)" using assms(2) by linarith
  show "\<not> (wa + 16 + d \<le> x \<and> x < wa + 16 + d + 8)" using assms(3) by linarith
  show "\<not> (wb + 16 + d \<le> x \<and> x < wb + 16 + d + 8)" using assms(4) by linarith
qed

lemma lo_pass_keeps_hi:
  assumes "aligned_blocks wa wb" "8 \<le> j" "j < 16"
  shows "update_lanes rs E L K wa wb w 0 (wa + j) = w (wa + j)"
    "update_lanes rs E L K wa wb w 0 (wb + j) = w (wb + j)"
    "update_lanes rs E L K wa wb w 0 (wa + 16 + j) = w (wa + 16 + j)"
    "update_lanes rs E L K wa wb w 0 (wb + 16 + j) = w (wb + 16 + j)"
proof -
  from assms(1) consider "wa = wb" | "wa + 32 \<le> wb" | "wb + 32 \<le> wa"
    unfolding aligned_blocks_def by blast
  then have "update_lanes rs E L K wa wb w 0 (wa + j) = w (wa + j) \<and>
    update_lanes rs E L K wa wb w 0 (wb + j) = w (wb + j) \<and>
    update_lanes rs E L K wa wb w 0 (wa + 16 + j) = w (wa + 16 + j) \<and>
    update_lanes rs E L K wa wb w 0 (wb + 16 + j) = w (wb + 16 + j)"
  proof cases
    case 1
    with assms(2,3) show ?thesis by (simp add: update_lanes_outside_blocks)
  next
    case 2
    with assms(2,3) show ?thesis by (simp add: update_lanes_outside_blocks)
  next
    case 3
    with assms(2,3) show ?thesis by (simp add: update_lanes_outside_blocks)
  qed
  then show "update_lanes rs E L K wa wb w 0 (wa + j) = w (wa + j)"
    "update_lanes rs E L K wa wb w 0 (wb + j) = w (wb + j)"
    "update_lanes rs E L K wa wb w 0 (wa + 16 + j) = w (wa + 16 + j)"
    "update_lanes rs E L K wa wb w 0 (wb + 16 + j) = w (wb + 16 + j)"
    by simp_all
qed

lemma hi_pass_keeps_lo:
  assumes "aligned_blocks wa wb" "j < 8"
  shows "update_lanes rs E L K wa wb w 8 (wa + j) = w (wa + j)"
    "update_lanes rs E L K wa wb w 8 (wb + j) = w (wb + j)"
    "update_lanes rs E L K wa wb w 8 (wa + 16 + j) = w (wa + 16 + j)"
    "update_lanes rs E L K wa wb w 8 (wb + 16 + j) = w (wb + 16 + j)"
proof -
  from assms(1) consider "wa = wb" | "wa + 32 \<le> wb" | "wb + 32 \<le> wa"
    unfolding aligned_blocks_def by blast
  then have "update_lanes rs E L K wa wb w 8 (wa + j) = w (wa + j) \<and>
    update_lanes rs E L K wa wb w 8 (wb + j) = w (wb + j) \<and>
    update_lanes rs E L K wa wb w 8 (wa + 16 + j) = w (wa + 16 + j) \<and>
    update_lanes rs E L K wa wb w 8 (wb + 16 + j) = w (wb + 16 + j)"
  proof cases
    case 1
    with assms(2) show ?thesis by (simp add: update_lanes_outside_blocks)
  next
    case 2
    with assms(2) show ?thesis by (simp add: update_lanes_outside_blocks)
  next
    case 3
    with assms(2) show ?thesis by (simp add: update_lanes_outside_blocks)
  qed
  then show "update_lanes rs E L K wa wb w 8 (wa + j) = w (wa + j)"
    "update_lanes rs E L K wa wb w 8 (wb + j) = w (wb + j)"
    "update_lanes rs E L K wa wb w 8 (wa + 16 + j) = w (wa + 16 + j)"
    "update_lanes rs E L K wa wb w 8 (wb + 16 + j) = w (wb + 16 + j)"
    by simp_all
qed

lemma update_dims_outside:
  assumes "x < wa \<or> wa + 32 \<le> x" "x < wb \<or> wb + 32 \<le> x"
  shows "update_dims rs E L K wa wb w 0 x = w x"
proof -
  have "update_lanes rs E L K wa wb (update_lanes rs E L K wa wb w 0) 8 x = update_lanes rs E L K wa wb w 0 x"
    using assms by (intro update_lanes_outside_blocks) linarith+
  also have "\<dots> = w x"
    using assms by (intro update_lanes_outside_blocks) linarith+
  finally show ?thesis by (simp only: update_dims_unfold)
qed

lemma update_dims_lanes_lo:
  assumes j: "j < 8" and al: "aligned_blocks wa wb"
  shows "update_dims rs (mm256_set1_ps e) (mm256_set1_ps l) (mm256_set1_ps kv) wa wb w 0 (wa + j) =
           lane_step rs e l kv (w (wa + j)) (w (wb + j)) (w (wa + 16 + j))"
    and "update_dims rs (mm256_set1_ps e) (mm256_set1_ps l) (mm256_set1_ps kv) wa wb w 0 (wb + j) =
           lane_step rs e l kv (w (wb + j)) (w (wa + j)) (w (wb + 16 + j))"
    and "update_dims rs (mm256_set1_ps e) (mm256_set1_ps l) (mm256_set1_ps kv) wa wb w 0 (wa + 16 + j) =
           lane_acc l kv (w (wa + j)) (w (wb + j)) (w (wa + 16 + j))"
    and "update_dims rs (mm256_set1_ps e) (mm256_set1_ps l) (mm256_set1_ps kv) wa wb w 0 (wb + 16 + j) =
           lane_acc l kv (w (wb + j)) (w (wa + j)) (w (wb + 16 + j))"
proof -
  show "update_dims rs (mm256_set1_ps e) (mm256_set1_ps l) (mm256_set1_ps kv) wa wb w 0 (wa + j) =
           lane_step rs e l kv (w (wa + j)) (w (wb + j)) (w (wa + 16 + j))"
    unfolding update_dims_unfold hi_pass_keeps_lo(1) [OF al j]
    using update_lanes_w_a [OF j al, where d = 0] by simp
  show "update_dims rs (mm256_set1_ps e) (mm256_set1_ps l) (mm256_set1_ps kv) wa wb w 0 (wb + j) =
           lane_step rs e l kv (w (wb + j)) (w (wa + j)) (w (wb + 16 + j))"
    unfolding update_dims_unfold hi_pass_keeps_lo(2) [OF al j]
    using update_lanes_w_b [OF j al, where d = 0] by simp
  show "update_dims rs (mm256_set1_ps e) (mm256_set1_ps l) (mm256_set1_ps kv) wa wb w 0 (wa + 16 + j) =
           lane_acc l kv (w (wa + j)) (w (wb + j)) (w (wa + 16 + j))"
    unfolding update_dims_unfold hi_pass_keeps_lo(3) [OF al j]
    using update_lanes_acc_a' [OF j al, where d = 0] by simp
  show "update_dims rs (mm256_set1_ps e) (mm256_set1_ps l) (mm256_set1_ps kv) wa wb w 0 (wb + 16 + j) =
           lane_acc l kv (w (wb + j)) (w (wa + j)) (w (wb + 16 + j))"
    unfolding update_dims_unfold hi_pass_keeps_lo(4) [OF al j]
    using update_lanes_acc_b' [OF j, where d = 0] by simp
qed

lemma update_dims_lanes_hi:
  assumes ge: "8 \<le> j" and j: "j < 16" and al: "aligned_blocks wa wb"
  shows "update_dims rs (mm256_set1_ps e) (mm256_set1_ps l) (mm256_set1_ps kv) wa wb w 0 (wa + j) =
           lane_step rs e l kv (w (wa + j)) (w (wb + j)) (w (wa + 16 + j))"
    and "update_dims rs (mm256_set1_ps e) (mm256_set1_ps l) (mm256_set1_ps kv) wa wb w 0 (wb + j) =
           lane_step rs e l kv (w (wb + j)) (w (wa + j)) (w (wb + 16 + j))"
    and "update_dims rs (mm256_set1_ps e) (mm256_set1_ps l) (mm256_set1_ps kv) wa wb w 0 (wa + 16 + j) =
           lane_acc l kv (w (wa + j)) (w (wb + j)) (w (wa + 16 + j))"
    and "update_dims rs (mm256_set1_ps e) (mm256_set1_ps l) (mm256_set1_ps kv) wa wb w 0 (wb + 16 + j) =
           lane_acc l kv (w (wb + j)) (w (wa + j)) (w (wb + 16 + j))"
proof -
  let ?w1 = "update_lanes rs (mm256_set1_ps e) (mm256_set1_ps l) (mm256_set1_ps kv) wa wb w 0"
  from ge j have k: "j - 8 < 8" by simp
  have a: "wa + 8 + (j - 8) = wa + j" "wb + 8 + (j - 8) = wb + j"
    "wa + 16 + 8 + (j - 8) = wa + 16 + j" "wb + 16 + 8 + (j - 8) = wb + 16 + j"
    using ge by simp_all
  note keep = lo_pass_keeps_hi [OF al ge j]
  show "update_dims rs (mm256_set1_ps e) (mm256_set1_ps l) (mm256_set1_ps kv) wa wb w 0 (wa + j) =
           lane_step rs e l kv (w (wa + j)) (w (wb + j)) (w (wa + 16 + j))"
    using update_lanes_w_a [OF k al, where d = 8 and w = ?w1 and e = e and l = l and kv = kv]
    unfolding a keep update_dims_unfold .
  show "update_dims rs (mm256_set1_ps e) (mm256_set1_ps l) (mm256_set1_ps kv) wa wb w 0 (wb + j) =
           lane_step rs e l kv (w (wb + j)) (w (wa + j)) (w (wb + 16 + j))"
    using update_lanes_w_b [OF k al, where d = 8 and w = ?w1 and e = e and l = l and kv = kv]
    unfolding a keep update_dims_unfold .
  show "update_dims rs (mm256_set1_ps e) (mm256_set1_ps l) (mm256_set1_ps kv) wa wb w 0 (wa + 16 + j) =
           lane_acc l kv (w (wa + j)) (w (wb + j)) (w (wa + 16 + j))"
    using update_lanes_acc_a' [OF k al, where d = 8 and w = ?w1 and e = e and l = l and kv = kv]
    unfolding a keep update_dims_unfold .
  show "update_dims rs (mm256_set1_ps e) (mm256_set1_ps l) (mm256_set1_ps kv) wa wb w 0 (wb + 16 + j) =
           lane_acc l kv (w (wb + j)) (w (wa + j)) (w (wb + 16 + j))"
    using update_lanes_acc_b' [OF k, where d = 8 and w = ?w1 and e = e and l = l and kv = kv and wa = wa and wb = wb]
    unfolding a keep update_dims_unfold .
qed

lemma update_dims_lanes:
  assumes j: "j < 16" and al: "aligned_blocks wa wb"
  shows "update_dims rs (mm256_set1_ps e) (mm256_set1_ps l) (mm256_set1_ps kv) wa wb w 0 (wa + j) =
           lane_step rs e l kv (w (wa + j)) (w (wb + j)) (w (wa + 16 + j))"
    and "update_dims rs (mm256_set1_ps e) (mm256_set1_ps l) (mm256_set1_ps kv) wa wb w 0 (wb + j) =
           lane_step rs e l kv (w (wb + j)) (w (wa + j)) (w (wb + 16 + j))"
    and "update_dims rs (mm256_set1_ps e) (mm256_set1_ps l) (mm256_set1_ps kv) wa wb w 0 (wa + 16 + j) =
           lane_acc l kv (w (wa + j)) (w (wb + j)) (w (wa + 16 + j))"
    and "update_dims rs (mm256_set1_ps e) (mm256_set1_ps l) (mm256_set1_ps kv) wa wb w 0 (wb + 16 + j) =
           lane_acc l kv (w (wb + j)) (w (wa + j)) (w (wb + 16 + j))"
  using update_dims_lanes_lo [OF _ al, where j = j and rs = rs and e = e and l = l and kv = kv and w = w]
    update_dims_lanes_hi [OF _ j al, where rs = rs and e = e and l = l and kv = kv and w = w]
  by (cases "j < 8"; simp)+

section \<open>The AdaGrad step of one pair\<close>

lemma nonpositive_lanes_empty:
  "nonpositive_lanes w wg = [] \<longleftrightarrow> (\<forall>j<n_dim_aligned. 0 < w (wg + j))"
  by (auto simp: nonpositive_lanes_def filter_empty_conv not_le)

lemma lane_acc_positive: "0 < g_acc \<Longrightarrow> 0 < lane_acc l kv w_self w_other g_acc"
proof -
  assume "0 < g_acc"
  moreover have "0 \<le> (lane_grad l kv w_self w_other)\<^sup>2" by simp
  ultimately show ?thesis unfolding lane_acc_def by linarith
qed


lemma pair_factor_None:
  "pair_factor kappa va vb nrm = None \<longleftrightarrow>
     \<not> (nrm \<noteq> 0 \<and> flt_finite (kappa * va) \<and> flt_finite (kappa * va * vb) \<and>
        flt_finite (kappa * va * vb / nrm))"
  by (simp add: pair_factor_def)

text \<open>
  With a factor that is a number and positive accumulators in both blocks, the interaction
  code of a pair stores numbers only: its result is the model after the lane loop.
\<close>

lemma update_pair_weights:
  assumes factor: "pair_factor kappa (val fa) (val fb) nrm = Some kv"
    and positive: "\<forall>j<n_dim_aligned.
        0 < weights m (block_offset (index_of hb fa) (field_of hb fb) + n_dim_aligned + j) \<and>
        0 < weights m (block_offset (index_of hb fb) (field_of hb fa) + n_dim_aligned + j)"
  shows "update_pair hb rs m nrm kappa fa fb =
     Inr (m\<lparr>weights := update_dims rs (mm256_set1_ps (eta m)) (mm256_set1_ps (lambda m))
       (mm256_set1_ps kv)
       (block_offset (index_of hb fa) (field_of hb fb))
       (block_offset (index_of hb fb) (field_of hb fa)) (weights m) 0\<rparr>)"
proof -
  let ?wa = "block_offset (index_of hb fa) (field_of hb fb)"
  let ?wb = "block_offset (index_of hb fb) (field_of hb fa)"
  let ?w = "update_dims rs (mm256_set1_ps (eta m)) (mm256_set1_ps (lambda m))
       (mm256_set1_ps kv) ?wa ?wb (weights m) 0"
  have al: "aligned_blocks ?wa ?wb" by (rule aligned_block_offsets)
  have a: "nonpositive_lanes ?w (?wa + n_dim_aligned) = []"
    unfolding nonpositive_lanes_empty
  proof (intro allI impI)
    fix j assume j: "j < n_dim_aligned"
    then have j16: "j < 16" by (simp add: n_dim_aligned_16)
    from positive j have "0 < weights m (?wa + 16 + j)" by (simp add: n_dim_aligned_16)
    then show "0 < ?w (?wa + n_dim_aligned + j)"
      unfolding n_dim_aligned_16 update_dims_lanes(3) [OF j16 al] by (rule lane_acc_positive)
  qed
  have b: "nonpositive_lanes ?w (?wb + n_dim_aligned) = []"
    unfolding nonpositive_lanes_empty
  proof (intro allI impI)
    fix j assume j: "j < n_dim_aligned"
    then have j16: "j < 16" by (simp add: n_dim_aligned_16)
    from positive j have "0 < weights m (?wb + 16 + j)" by (simp add: n_dim_aligned_16)
    then show "0 < ?w (?wb + n_dim_aligned + j)"
      unfolding n_dim_aligned_16 update_dims_lanes(4) [OF j16 al] by (rule lane_acc_positive)
  qed
  show ?thesis
    unfolding update_pair_def Let_def factor using a b by simp
qed


lemma update_inner_single_nonfinite:
  assumes "\<not> field_of hb fb > max_b_field (model s)" "test_mask_bit msk (cnt s) \<noteq> 0"
    and "update_pair hb rs (model s) nrm kappa fa fb = Inl cells"
  shows "model (update_inner hb rs nrm kappa msk a fa b [fb] s) = model s"
    and "nonfinite (update_inner hb rs nrm kappa msk a fa b [fb] s) = nonfinite s \<union> cells"
  using assms by (simp_all add: Let_def)






section \<open>A pair whose two blocks coincide\<close>



section \<open>update with a zero gradient\<close>

lemma store_loaded:
  assumes "length v = 8" "\<forall>k<8. v ! k = w (p + k)"
  shows "mm256_store_ps w p v = w"
proof
  fix x
  show "mm256_store_ps w p v x = w x"
  proof (cases "p \<le> x \<and> x < p + 8")
    case True
    then have "x - p < 8" "p + (x - p) = x" by linarith+
    with assms(2) have "v ! (x - p) = w x" by metis
    with True show ?thesis by (simp add: mm256_store_ps_def)
  next
    case False
    then show ?thesis by (rule store_out)
  qed
qed

lemma update_lanes_zero_grad:
  "update_lanes rs (mm256_set1_ps e) (mm256_set1_ps 0) (mm256_set1_ps 0) wa wb w d = w"
proof -
  have z: "mm256_add_ps (mm256_mul_ps (mm256_set1_ps 0) (mm256_load_ps w p))
             (mm256_mul_ps (mm256_set1_ps 0) (mm256_load_ps w q)) = mm256_set1_ps 0" for p q
    by (rule nth_equalityI) (simp_all add: nth_mm256)
  have a: "mm256_add_ps (mm256_load_ps w p) (mm256_mul_ps (mm256_set1_ps 0) (mm256_set1_ps 0)) =
             mm256_load_ps w p" for p
    by (rule nth_equalityI) (simp_all add: nth_mm256)
  have s: "mm256_sub_ps (mm256_load_ps w p)
             (mm256_mul_ps (mm256_set1_ps e)
               (mm256_mul_ps (mm256_rsqrt_ps rs (mm256_load_ps w q)) (mm256_set1_ps 0))) =
             mm256_load_ps w p" for p q
    by (rule nth_equalityI) (simp_all add: nth_mm256)
  have st: "mm256_store_ps w p (mm256_load_ps w p) = w" for p
    by (rule store_loaded) (simp_all add: nth_mm256)
  show ?thesis
    unfolding update_lanes_def Let_def z a s st ..
qed

lemma update_dims_zero_grad:
  "update_dims rs (mm256_set1_ps e) (mm256_set1_ps 0) (mm256_set1_ps 0) wa wb w 0 = w"
  unfolding update_dims_unfold update_lanes_zero_grad ..

lemma positive_block:
  assumes "positive_accumulators m"
  shows "nonpositive_lanes (weights m) (block_offset idx fld + n_dim_aligned) = []"
  unfolding nonpositive_lanes_empty
proof (intro allI impI)
  fix j assume "j < n_dim_aligned"
  with assms have "0 < weights m ((30 * unat idx + unat fld) * field_stride + n_dim_aligned + j)"
    unfolding positive_accumulators_def by blast
  then show "0 < weights m (block_offset idx fld + n_dim_aligned + j)"
    by (simp add: block_offset_32 strides mult.commute)
qed

lemma pair_factor_zero: "nrm \<noteq> 0 \<Longrightarrow> pair_factor 0 va vb nrm = Some 0"
  by (simp add: pair_factor_def flt_finite_def)

lemma update_pair_zero_grad:
  assumes "lambda m = 0" "positive_accumulators m" "nrm \<noteq> 0"
  shows "update_pair hb rs m nrm 0 fa fb = Inr m"
  using assms
  by (simp add: update_pair_def Let_def pair_factor_zero update_dims_zero_grad positive_block)

lemma update_linear_zero_grad: "lambda m = 0 \<Longrightarrow> update_linear hb m 0 lnorm fa = m"
  by (simp add: update_linear_def Let_def)

lemma update_inner_zero_grad:
  "lambda (model s) = 0 \<Longrightarrow> positive_accumulators (model s) \<Longrightarrow> nrm \<noteq> 0 \<Longrightarrow>
   model (update_inner hb rs nrm 0 msk a fa b bs s) = model s \<and>
   nonfinite (update_inner hb rs nrm 0 msk a fa b bs s) = nonfinite s"
  by (induction bs arbitrary: b s) (simp_all add: Let_def update_pair_zero_grad)

lemma update_outer_zero_grad:
  "lambda (model s) = 0 \<Longrightarrow> positive_accumulators (model s) \<Longrightarrow> nrm \<noteq> 0 \<Longrightarrow>
   model (update_outer hb rs nrm 0 msk lnorm pre fs s) = model s \<and>
   nonfinite (update_outer hb rs nrm 0 msk lnorm pre fs s) = nonfinite s"
  by (induction fs arbitrary: pre s)
    (simp_all add: Let_def update_linear_zero_grad update_inner_zero_grad)

lemma example_model_positive: "lambda example_model = 0 \<and> positive_accumulators example_model"
  by (simp add: positive_accumulators_def example_model_def strides n_dim_aligned_16)

text \<open>
  C5. The statement does not hold for every norm. The example model has \<open>lambda = 0\<close> and
  positive accumulators (\<open>example_model_positive\<close>). With \<open>kappa = 0\<close> and norm 0, the
  factor of the one pair of the list is \<open>0 * 2 * 1 / 0\<close>, a NaN; the pair is mask-enabled,
  and the lane loop stores NaN in every cell of both blocks, the weight cell 8640 and the
  accumulator cell 8656 among them.
\<close>

theorem update_zero_gradient_counterexample:
  "pair_factor 0 2 1 0 = None \<and>
   8640 \<in> nonfinite (update_loop 20 example_rsqrt example_model
       [\<lparr>index = 5, val = 1\<rparr>, \<lparr>index = 1048585, val = 2\<rparr>] 0 0 example_mask) \<and>
   8656 \<in> nonfinite (update_loop 20 example_rsqrt example_model
       [\<lparr>index = 5, val = 1\<rparr>, \<lparr>index = 1048585, val = 2\<rparr>] 0 0 example_mask)"
  by (simp add: update_loop_def Let_def update_pair_def pair_factor_def update_linear_def
      example_model_def example_mask_def field_of_def index_of_def ffm_hash_mask_def
      test_mask_bit_def block_offset_def strides prefetch_depth_def)

text \<open>
  C5, with the norm restricted. On a model whose AdaGrad accumulators are all positive,
  \<open>update\<close> with \<open>kappa = 0\<close> and \<open>lambda = 0\<close> and a norm other than zero leaves every
  weight and every accumulator as it was, for every feature list and mask: the model
  after the call is the model before it, and every value stored is a number.
\<close>

theorem update_zero_gradient:
  assumes "lambda m = 0" and "positive_accumulators m" and "nrm \<noteq> 0"
  shows "update hb rs m fs nrm 0 msk = m \<and> nonfinite (update_loop hb rs m fs nrm 0 msk) = {}"
  using assms by (simp add: update_def update_loop_def update_outer_zero_grad update_bias_def)

theorem update_zero_gradient_witness:
  "update 20 example_rsqrt example_model [\<lparr>index = 5, val = 1\<rparr>, \<lparr>index = 1048585, val = 2\<rparr>] 1 0
     example_mask = example_model \<and>
   nonfinite (update_loop 20 example_rsqrt example_model
     [\<lparr>index = 5, val = 1\<rparr>, \<lparr>index = 1048585, val = 2\<rparr>] 1 0 example_mask) = {}"
proof -
  have l: "lambda example_model = 0" by (simp add: example_model_def)
  have p: "positive_accumulators example_model"
    by (simp add: positive_accumulators_def example_model_def strides n_dim_aligned_16)
  have n: "(1 :: real) \<noteq> 0" by simp
  show ?thesis by (rule update_zero_gradient [OF l p n])
qed

section \<open>The padding lanes\<close>

lemma fold_upd_range:
  "fold (\<lambda>d w. w(b + d := f d)) [lo..<hi] w x =
     (if b + lo \<le> x \<and> x < b + hi then f (x - b) else w x)"
proof (induction hi)
  case 0
  then show ?case by auto
next
  case (Suc hi)
  show ?case
  proof (cases "lo \<le> hi")
    case True
    then show ?thesis using Suc by (auto simp: upt_Suc_append)
  next
    case False
    then show ?thesis by auto
  qed
qed

lemma init_block_cell:
  "init_block gen i w x =
     (if i * 32 + 16 \<le> x \<and> x < i * 32 + 32 then 1
      else if i * 32 + 14 \<le> x \<and> x < i * 32 + 16 then 0
      else if i * 32 \<le> x \<and> x < i * 32 + 14 then gen (i * 14 + (x - i * 32))
      else w x)"
  unfolding init_block_def Let_def fold_upd_range
  by (auto simp: n_dim_aligned_16 n_dim_def)

lemma init_blocks_padding:
  "blk < n \<Longrightarrow> 14 \<le> d \<Longrightarrow> d < 16 \<Longrightarrow> fold (init_block gen) [0..<n] w (blk * 32 + d) = 0"
proof (induction n)
  case 0
  then show ?case by simp
next
  case (Suc n)
  show ?case
  proof (cases "blk = n")
    case True
    with Suc.prems show ?thesis by (simp add: init_block_cell)
  next
    case False
    with Suc.prems have lt: "blk < n" by simp
    then have "Suc blk \<le> n" by simp
    then have "32 * Suc blk \<le> 32 * n" by (rule mult_le_mono2)
    with Suc.prems have "blk * 32 + d < n * 32" by simp
    then show ?thesis using Suc.IH [OF lt Suc.prems(2,3)] by (simp add: init_block_cell)
  qed
qed

lemma init_blocks_acc:
  "blk < n \<Longrightarrow> 16 \<le> d \<Longrightarrow> d < 32 \<Longrightarrow> fold (init_block gen) [0..<n] w (blk * 32 + d) = 1"
proof (induction n)
  case 0
  then show ?case by simp
next
  case (Suc n)
  show ?case
  proof (cases "blk = n")
    case True
    with Suc.prems show ?thesis by (simp add: init_block_cell)
  next
    case False
    with Suc.prems have lt: "blk < n" by simp
    then have "Suc blk \<le> n" by simp
    then have "32 * Suc blk \<le> 32 * n" by (rule mult_le_mono2)
    with Suc.prems have "blk * 32 + d < n * 32" by simp
    then show ?thesis using Suc.IH [OF lt Suc.prems(2,3)] by (simp add: init_block_cell)
  qed
qed

lemma constructed_acc:
  assumes "n_features hb * n_fields < 2 ^ 32"
  shows "accumulators_positive hb (weights (ffm_model_new hb raw_w raw_l gen restricted eta0 lambda0))"
proof -
  have u: "unat (of_nat (n_features hb * n_fields) :: 32 word) = n_features hb * n_fields"
    by (subst unat_of_nat) (use assms in simp)
  have "fold (init_block gen) [0..<n_features hb * n_fields] raw_w (blk * 32 + (16 + j)) = 1"
    if "blk < n_features hb * n_fields" "j < 16" for blk j
    using that by (intro init_blocks_acc) simp_all
  with u show ?thesis
    by (simp add: accumulators_positive_def ffm_model_new_def init_weights_def
        strides n_dim_aligned_16 add.assoc)
qed

lemma constructed_padding:
  assumes "n_features hb * n_fields < 2 ^ 32"
  shows "padding_zero hb (weights (ffm_model_new hb raw_w raw_l gen restricted eta0 lambda0))"
proof -
  have "unat (of_nat (n_features hb * n_fields) :: 32 word) = n_features hb * n_fields"
    by (subst unat_of_nat) (use assms in simp)
  then show ?thesis
    by (simp add: padding_zero_def ffm_model_new_def init_weights_def init_blocks_padding
        strides n_dim_aligned_16 n_dim_def)
qed


lemma unat_index_of: "unat (index_of hb f) < n_features hb"
proof -
  have "unat (index_of hb f) = take_bit hb (unat (index f))"
    by (simp add: index_of_def mask_hash unsigned_take_bit_eq flip: take_bit_eq_mask)
  then show ?thesis by (simp add: n_features_def take_bit_eq_mod)
qed

lemma block_in_range:
  assumes "unat fld < n_fields"
  shows "30 * unat (index_of hb f) + unat fld < n_features hb * n_fields"
proof -
  have "Suc (unat (index_of hb f)) \<le> n_features hb"
    using unat_index_of [of hb f] by simp
  then have "30 * Suc (unat (index_of hb f)) \<le> 30 * n_features hb"
    by (rule mult_le_mono2)
  with assms show ?thesis by (simp add: n_fields_def)
qed

lemma padding_zero_cell:
  "padding_zero hb w \<Longrightarrow> blk < n_features hb * n_fields \<Longrightarrow> 14 \<le> d \<Longrightarrow> d < 16 \<Longrightarrow>
   w (32 * blk + d) = 0"
  by (simp add: padding_zero_def strides n_dim_def n_dim_aligned_16 mult.commute)

lemma apart_32:
  fixes blk p d :: nat
  assumes "blk \<noteq> p" "d < 32"
  shows "32 * blk + d < 32 * p \<or> 32 * p + 32 \<le> 32 * blk + d"
proof -
  from assms(1) consider "Suc blk \<le> p" | "Suc p \<le> blk" by linarith
  then show ?thesis
  proof cases
    case 1
    then have "32 * Suc blk \<le> 32 * p" by (rule mult_le_mono2)
    with assms(2) show ?thesis by simp
  next
    case 2
    then have "32 * Suc p \<le> 32 * blk" by (rule mult_le_mono2)
    then show ?thesis by simp
  qed
qed

lemma update_dims_padding:
  assumes pz: "padding_zero hb w"
    and p: "p < n_features hb * n_fields" and q: "q < n_features hb * n_fields"
  shows "padding_zero hb
           (update_dims rs (mm256_set1_ps e) (mm256_set1_ps l) (mm256_set1_ps kv) (32 * p) (32 * q) w 0)"
  unfolding padding_zero_def
proof (intro allI impI)
  fix blk d
  assume "blk < n_features hb * n_fields \<and> n_dim \<le> d \<and> d < n_dim_aligned"
  then have blk: "blk < n_features hb * n_fields" and d: "14 \<le> d" "d < 16"
    by (simp_all add: n_dim_def n_dim_aligned_16)
  have al: "aligned_blocks (32 * p) (32 * q)" by (rule aligned_32)
  have zp: "w (32 * p + d) = 0" and zq: "w (32 * q + d) = 0"
    using pz p q d by (simp_all add: padding_zero_cell)
  have "update_dims rs (mm256_set1_ps e) (mm256_set1_ps l) (mm256_set1_ps kv) (32 * p) (32 * q) w 0
          (32 * blk + d) = 0"
  proof (cases "blk = p \<or> blk = q")
    case True
    then show ?thesis
      using update_dims_lanes(1,2) [OF d(2) al, of rs e l kv w] zp zq
      by (auto simp: lane_step_def lane_grad_def)
  next
    case False
    with d have "32 * blk + d < 32 * p \<or> 32 * p + 32 \<le> 32 * blk + d"
      and "32 * blk + d < 32 * q \<or> 32 * q + 32 \<le> 32 * blk + d"
      by (simp_all add: apart_32)
    then have "update_dims rs (mm256_set1_ps e) (mm256_set1_ps l) (mm256_set1_ps kv) (32 * p) (32 * q) w 0
          (32 * blk + d) = w (32 * blk + d)"
      by (rule update_dims_outside)
    with pz blk d show ?thesis by (simp add: padding_zero_cell)
  qed
  then show "update_dims rs (mm256_set1_ps e) (mm256_set1_ps l) (mm256_set1_ps kv) (32 * p) (32 * q) w 0
          (blk * field_stride + d) = 0"
    by (simp add: strides mult.commute)
qed

lemma acc_positive_cell:
  "accumulators_positive hb w \<Longrightarrow> blk < n_features hb * n_fields \<Longrightarrow> j < 16 \<Longrightarrow>
   0 < w (32 * blk + 16 + j)"
  by (simp add: accumulators_positive_def strides n_dim_aligned_16 mult.commute)

lemma update_dims_acc:
  assumes ap: "accumulators_positive hb w"
    and p: "p < n_features hb * n_fields" and q: "q < n_features hb * n_fields"
  shows "accumulators_positive hb
           (update_dims rs (mm256_set1_ps e) (mm256_set1_ps l) (mm256_set1_ps kv) (32 * p) (32 * q) w 0)"
  unfolding accumulators_positive_def
proof (intro allI impI)
  fix blk j
  assume "blk < n_features hb * n_fields \<and> j < n_dim_aligned"
  then have blk: "blk < n_features hb * n_fields" and j: "j < 16"
    by (simp_all add: n_dim_aligned_16)
  have al: "aligned_blocks (32 * p) (32 * q)" by (rule aligned_32)
  have "0 < update_dims rs (mm256_set1_ps e) (mm256_set1_ps l) (mm256_set1_ps kv) (32 * p) (32 * q) w 0
          (32 * blk + 16 + j)"
  proof (cases "blk = p \<or> blk = q")
    case True
    then show ?thesis
      using update_dims_lanes(3,4) [OF j al, of rs e l kv w]
        acc_positive_cell [OF ap p j] acc_positive_cell [OF ap q j]
      by (auto simp: lane_acc_positive)
  next
    case False
    from j have j32: "16 + j < 32" by simp
    from False have np: "blk \<noteq> p" and nq: "blk \<noteq> q" by simp_all
    have "32 * blk + (16 + j) < 32 * p \<or> 32 * p + 32 \<le> 32 * blk + (16 + j)"
      and "32 * blk + (16 + j) < 32 * q \<or> 32 * q + 32 \<le> 32 * blk + (16 + j)"
      by (rule apart_32 [OF np j32], rule apart_32 [OF nq j32])
    then have "update_dims rs (mm256_set1_ps e) (mm256_set1_ps l) (mm256_set1_ps kv) (32 * p) (32 * q) w 0
          (32 * blk + (16 + j)) = w (32 * blk + (16 + j))"
      by (rule update_dims_outside)
    with acc_positive_cell [OF ap blk j] show ?thesis by (simp add: add.assoc)
  qed
  then show "0 < update_dims rs (mm256_set1_ps e) (mm256_set1_ps l) (mm256_set1_ps kv) (32 * p) (32 * q) w 0
          (blk * field_stride + n_dim_aligned + j)"
    by (simp add: strides n_dim_aligned_16 mult.commute)
qed

text \<open>
  The interaction code of a pair keeps both invariants of the tensor when it stores
  numbers, and on a tensor with positive accumulators it stores numbers whenever the
  factor of the pair is a number.
\<close>

lemma update_pair_Inr:
  assumes "update_pair hb rs m nrm kappa fa fb = Inr m'"
  shows "\<exists>kv. weights m' =
     update_dims rs (mm256_set1_ps (eta m)) (mm256_set1_ps (lambda m)) (mm256_set1_ps kv)
       (block_offset (index_of hb fa) (field_of hb fb))
       (block_offset (index_of hb fb) (field_of hb fa)) (weights m) 0"
  using assms by (auto simp: update_pair_def Let_def split: option.splits if_splits)

lemma update_pair_padding:
  assumes "padding_zero hb (weights m)"
    and "unat (field_of hb fa) < n_fields" and "unat (field_of hb fb) < n_fields"
    and "update_pair hb rs m nrm kappa fa fb = Inr m'"
  shows "padding_zero hb (weights m')"
proof -
  from update_pair_Inr [OF assms(4)] obtain kv where
    w: "weights m' = update_dims rs (mm256_set1_ps (eta m)) (mm256_set1_ps (lambda m)) (mm256_set1_ps kv)
       (block_offset (index_of hb fa) (field_of hb fb))
       (block_offset (index_of hb fb) (field_of hb fa)) (weights m) 0" ..
  show ?thesis
    unfolding w block_offset_32
    using assms(1-3) by (intro update_dims_padding block_in_range)
qed

lemma update_pair_acc:
  assumes "accumulators_positive hb (weights m)"
    and "unat (field_of hb fa) < n_fields" and "unat (field_of hb fb) < n_fields"
    and "update_pair hb rs m nrm kappa fa fb = Inr m'"
  shows "accumulators_positive hb (weights m')"
proof -
  from update_pair_Inr [OF assms(4)] obtain kv where
    w: "weights m' = update_dims rs (mm256_set1_ps (eta m)) (mm256_set1_ps (lambda m)) (mm256_set1_ps kv)
       (block_offset (index_of hb fa) (field_of hb fb))
       (block_offset (index_of hb fb) (field_of hb fa)) (weights m) 0" ..
  show ?thesis
    unfolding w block_offset_32
    using assms(1-3) by (intro update_dims_acc block_in_range)
qed

lemma update_pair_numbers:
  assumes ap: "accumulators_positive hb (weights m)"
    and fa: "unat (field_of hb fa) < n_fields" and fb: "unat (field_of hb fb) < n_fields"
    and factor: "pair_factor kappa (val fa) (val fb) nrm \<noteq> None"
  shows "\<exists>m'. update_pair hb rs m nrm kappa fa fb = Inr m'"
proof -
  from factor obtain kv where kv: "pair_factor kappa (val fa) (val fb) nrm = Some kv" by blast
  have "\<forall>j<n_dim_aligned.
        0 < weights m (block_offset (index_of hb fa) (field_of hb fb) + n_dim_aligned + j) \<and>
        0 < weights m (block_offset (index_of hb fb) (field_of hb fa) + n_dim_aligned + j)"
    unfolding block_offset_32 n_dim_aligned_16
    using acc_positive_cell [OF ap block_in_range [OF fb, of hb fa]]
      acc_positive_cell [OF ap block_in_range [OF fa, of hb fb]]
    by simp
  from update_pair_weights [OF kv this] show ?thesis by blast
qed

lemma update_inner_tensor:
  "padding_zero hb (weights (model s)) \<and> accumulators_positive hb (weights (model s)) \<Longrightarrow>
   unat (field_of hb fa) < n_fields \<Longrightarrow> \<forall>f\<in>set bs. unat (field_of hb f) < n_fields \<Longrightarrow>
   padding_zero hb (weights (model (update_inner hb rs nrm kappa msk a fa b bs s))) \<and>
   accumulators_positive hb (weights (model (update_inner hb rs nrm kappa msk a fa b bs s)))"
proof (induction bs arbitrary: b s)
  case Nil
  then show ?case by simp
next
  case (Cons fb rest)
  have fb: "unat (field_of hb fb) < n_fields" and rest: "\<forall>f\<in>set rest. unat (field_of hb f) < n_fields"
    using Cons.prems(3) by simp_all
  note IH = Cons.IH [OF _ Cons.prems(2) rest]
  have skip: "padding_zero hb (weights (model (s\<lparr>cnt := c, pairs := ps, reads := rd\<rparr>))) \<and>
      accumulators_positive hb (weights (model (s\<lparr>cnt := c, pairs := ps, reads := rd\<rparr>)))" for c ps rd
    using Cons.prems(1) by simp
  have bad: "padding_zero hb (weights (model (s\<lparr>cnt := c, pairs := ps, reads := rd, nonfinite := nf\<rparr>))) \<and>
      accumulators_positive hb
        (weights (model (s\<lparr>cnt := c, pairs := ps, reads := rd, nonfinite := nf\<rparr>)))" for c ps rd nf
    using Cons.prems(1) by simp
  have good: "padding_zero hb (weights (model (s\<lparr>cnt := c, pairs := ps, reads := rd, model := m'\<rparr>))) \<and>
      accumulators_positive hb
        (weights (model (s\<lparr>cnt := c, pairs := ps, reads := rd, model := m'\<rparr>)))"
    if "update_pair hb rs (model s) nrm kappa fa fb = Inr m'" for c ps rd m'
    using Cons.prems(1) update_pair_padding [OF _ Cons.prems(2) fb that]
      update_pair_acc [OF _ Cons.prems(2) fb that]
    by simp
  show ?case
  proof (cases "field_of hb fb > max_b_field (model s)")
    case True
    with Cons.prems(1) show ?thesis by simp
  next
    case eligible: False
    show ?thesis
    proof (cases "test_mask_bit msk (cnt s) = 0")
      case True
      with eligible show ?thesis using IH [OF skip] by (simp add: Let_def)
    next
      case enabled: False
      show ?thesis
      proof (cases "update_pair hb rs (model s) nrm kappa fa fb")
        case (Inl cells)
        with eligible enabled show ?thesis using IH [OF bad] by (simp add: Let_def)
      next
        case (Inr m')
        with eligible enabled show ?thesis using IH [OF good [OF Inr]] by (simp add: Let_def)
      qed
    qed
  qed
qed

lemma update_inner_numbers:
  "accumulators_positive hb (weights (model s)) \<Longrightarrow>
   unat (field_of hb fa) < n_fields \<Longrightarrow> \<forall>f\<in>set bs. unat (field_of hb f) < n_fields \<Longrightarrow>
   \<forall>f\<in>set bs. pair_factor kappa (val fa) (val f) nrm \<noteq> None \<Longrightarrow>
   nonfinite (update_inner hb rs nrm kappa msk a fa b bs s) = nonfinite s"
proof (induction bs arbitrary: b s)
  case Nil
  then show ?case by simp
next
  case (Cons fb rest)
  have fb: "unat (field_of hb fb) < n_fields" and rest: "\<forall>f\<in>set rest. unat (field_of hb f) < n_fields"
    using Cons.prems(3) by simp_all
  have fac: "pair_factor kappa (val fa) (val fb) nrm \<noteq> None"
    and facs: "\<forall>f\<in>set rest. pair_factor kappa (val fa) (val f) nrm \<noteq> None"
    using Cons.prems(4) by simp_all
  note IH = Cons.IH [OF _ Cons.prems(2) rest facs]
  from update_pair_numbers [OF Cons.prems(1,2) fb fac]
  obtain m' where m': "update_pair hb rs (model s) nrm kappa fa fb = Inr m'" by blast
  have skip: "accumulators_positive hb (weights (model (s\<lparr>cnt := c, pairs := ps, reads := rd\<rparr>)))"
    for c ps rd
    using Cons.prems(1) by simp
  have good: "accumulators_positive hb
        (weights (model (s\<lparr>cnt := c, pairs := ps, reads := rd, model := m'\<rparr>)))" for c ps rd
    using update_pair_acc [OF Cons.prems(1,2) fb m'] by simp
  show ?case
    using IH [OF skip] IH [OF good] by (simp add: Let_def m')
qed

lemma update_outer_tensor:
  "padding_zero hb (weights (model s)) \<and> accumulators_positive hb (weights (model s)) \<Longrightarrow>
   \<forall>f\<in>set pre. unat (field_of hb f) < n_fields \<Longrightarrow>
   \<forall>f\<in>set fs. unat (field_of hb f) < n_fields \<Longrightarrow>
   padding_zero hb (weights (model (update_outer hb rs nrm kappa msk lnorm pre fs s))) \<and>
   accumulators_positive hb (weights (model (update_outer hb rs nrm kappa msk lnorm pre fs s)))"
proof (induction fs arbitrary: pre s)
  case Nil
  then show ?case by simp
next
  case (Cons fa rest)
  let ?s1 = "s\<lparr>model := update_linear hb (model s) kappa lnorm fa\<rparr>"
  have p1: "padding_zero hb (weights (model ?s1)) \<and> accumulators_positive hb (weights (model ?s1))"
    using Cons.prems(1) by (simp add: update_linear_frame)
  have fa: "unat (field_of hb fa) < n_fields" and rest: "\<forall>f\<in>set rest. unat (field_of hb f) < n_fields"
    using Cons.prems(3) by simp_all
  have pre': "\<forall>f\<in>set (pre @ [fa]). unat (field_of hb f) < n_fields"
    using Cons.prems(2) fa by simp
  note p2 = update_inner_tensor [OF p1 fa Cons.prems(2), of rs nrm kappa msk "length pre" 0]
  show ?case
    using Cons.IH [OF p1 pre' rest] Cons.IH [OF p2 pre' rest] by (simp add: Let_def)
qed

lemma update_outer_numbers:
  "padding_zero hb (weights (model s)) \<and> accumulators_positive hb (weights (model s)) \<Longrightarrow>
   \<forall>f\<in>set pre. unat (field_of hb f) < n_fields \<Longrightarrow>
   \<forall>f\<in>set fs. unat (field_of hb f) < n_fields \<Longrightarrow>
   \<forall>fa\<in>set fs. \<forall>fb\<in>set pre \<union> set fs. pair_factor kappa (val fa) (val fb) nrm \<noteq> None \<Longrightarrow>
   nonfinite (update_outer hb rs nrm kappa msk lnorm pre fs s) = nonfinite s"
proof (induction fs arbitrary: pre s)
  case Nil
  then show ?case by simp
next
  case (Cons fa rest)
  let ?s1 = "s\<lparr>model := update_linear hb (model s) kappa lnorm fa\<rparr>"
  have p1: "padding_zero hb (weights (model ?s1)) \<and> accumulators_positive hb (weights (model ?s1))"
    using Cons.prems(1) by (simp add: update_linear_frame)
  have fa: "unat (field_of hb fa) < n_fields" and rest: "\<forall>f\<in>set rest. unat (field_of hb f) < n_fields"
    using Cons.prems(3) by simp_all
  have pre': "\<forall>f\<in>set (pre @ [fa]). unat (field_of hb f) < n_fields"
    using Cons.prems(2) fa by simp
  have facs: "\<forall>f\<in>set pre. pair_factor kappa (val fa) (val f) nrm \<noteq> None"
    using Cons.prems(4) by simp
  have facs': "\<forall>fa'\<in>set rest. \<forall>fb\<in>set (pre @ [fa]) \<union> set rest.
      pair_factor kappa (val fa') (val fb) nrm \<noteq> None"
    using Cons.prems(4) by simp
  note p2 = update_inner_tensor [OF p1 fa Cons.prems(2), of rs nrm kappa msk "length pre" 0]
  have n2: "nonfinite (update_inner hb rs nrm kappa msk (length pre) fa 0 pre ?s1) = nonfinite s"
    using update_inner_numbers [OF conjunct2 [OF p1] fa Cons.prems(2) facs, of rs msk "length pre" 0]
    by simp
  show ?case
    using Cons.IH [OF p1 pre' rest facs'] Cons.IH [OF p2 pre' rest facs'] n2
    by (simp add: Let_def)
qed

lemma update_tensor:
  assumes "padding_zero hb (weights m) \<and> accumulators_positive hb (weights m)"
    and "\<forall>f\<in>set fs. unat (field_of hb f) < n_fields"
  shows "padding_zero hb (weights (update hb rs m fs nrm kappa msk)) \<and>
         accumulators_positive hb (weights (update hb rs m fs nrm kappa msk))"
proof -
  have "padding_zero hb (weights (model (update_loop hb rs m fs nrm kappa msk))) \<and>
        accumulators_positive hb (weights (model (update_loop hb rs m fs nrm kappa msk)))"
    unfolding update_loop_def using assms by (intro update_outer_tensor) simp_all
  then show ?thesis by (simp add: update_def update_bias_def Let_def)
qed

lemma reachable_tensor:
  "reachable hb m \<Longrightarrow> padding_zero hb (weights m) \<and> accumulators_positive hb (weights m)"
  by (induction rule: reachable.induct) (simp_all add: constructed_padding constructed_acc update_tensor)

text \<open>
  On a reachable model a call of \<open>update\<close> with valid field ids and pair factors that are
  numbers stores numbers only.
\<close>

lemma reachable_update_numbers:
  assumes "reachable hb m" "\<forall>f\<in>set fs. unat (field_of hb f) < n_fields"
    and "finite_factors kappa nrm fs"
  shows "nonfinite (update_loop hb rs m fs nrm kappa msk) = {}"
proof -
  have "nonfinite (update_outer hb rs nrm kappa msk (real (length fs)) [] fs
       \<lparr>cnt = 0, pairs = [], reads = [], model = m, nonfinite = {}\<rparr>) =
     nonfinite \<lparr>cnt = 0, pairs = [], reads = [], model = m, nonfinite = {}\<rparr>"
    using reachable_tensor [OF assms(1)] assms(2,3)
    by (intro update_outer_numbers) (simp_all add: finite_factors_def)
  then show ?thesis by (simp add: update_loop_def)
qed

text \<open>
  C4. The invariant does not hold after every call of \<open>update\<close>. On a freshly constructed
  model, a call with norm 0 on a list with one mask-enabled pair has the factor
  \<open>1 / 2 * 2 * 1 / 0\<close>, an infinity. The gradient of a padding lane is then
  \<open>lambda * 0 + infinity * 0\<close>, a NaN, and the lane loop stores NaN in the padding lanes of
  both blocks: cell 8654 is lane \<open>n_dim\<close> of block 270.
\<close>

theorem padding_stays_zero_counterexample:
  "pair_factor (1 / 2) 2 1 0 = None \<and>
   270 * field_stride + n_dim = 8654 \<and>
   8654 \<in> nonfinite (update_loop 20 example_rsqrt
       (ffm_model_new 20 example_raw example_raw example_gen False 1 0)
       [\<lparr>index = 5, val = 1\<rparr>, \<lparr>index = 1048585, val = 2\<rparr>] 0 (1 / 2) example_mask)"
  by (simp add: update_loop_def Let_def update_pair_def pair_factor_def update_linear_def
      ffm_model_new_def example_mask_def field_of_def index_of_def ffm_hash_mask_def
      test_mask_bit_def block_offset_def strides n_dim_def n_fields_def prefetch_depth_def)

text \<open>
  C4, for calls whose pair factors are numbers. The padding lanes \<open>[n_dim, n_dim_aligned)\<close>
  of every block of the weight tensor are zero after construction and are still zero
  after every call of \<open>update\<close> in which the norm is not zero and no pair factor
  \<open>kappa * value_a * value_b / norm\<close> leaves the range of single precision (the condition
  \<open>finite_factors\<close> of \<open>reachable\<close>; such a call stores numbers only,
  \<open>reachable_update_numbers\<close>). The lane loop does load, step and store the padding lanes
  with the others (it runs over \<open>n_dim_aligned\<close> lanes), but the gradient of a zero lane
  against a zero lane is then zero, so the value stored is zero again.
\<close>

theorem padding_stays_zero: "reachable hb m \<Longrightarrow> padding_zero hb (weights m)"
  by (simp add: reachable_tensor)

theorem padding_stays_zero_witness:
  "weights (update 20 example_rsqrt (ffm_model_new 20 example_raw example_raw example_gen False 1 0)
      [\<lparr>index = 5, val = 1\<rparr>, \<lparr>index = 1048585, val = 2\<rparr>] 1 (1 / 2) example_mask) 8654 = 0 \<and>
   weights (update 20 example_rsqrt (ffm_model_new 20 example_raw example_raw example_gen False 1 0)
      [\<lparr>index = 5, val = 1\<rparr>, \<lparr>index = 1048585, val = 2\<rparr>] 1 (1 / 2) example_mask) 4847 = 0"
proof -
  let ?m0 = "ffm_model_new 20 example_raw example_raw example_gen False 1 0"
  let ?fs = "[\<lparr>index = 5, val = 1\<rparr>, \<lparr>index = 1048585, val = 2\<rparr>]"
  have r0: "reachable 20 ?m0"
    by (rule reachable.constructed) (simp add: n_features_def n_fields_def)
  have fl: "\<forall>f\<in>set ?fs. unat (field_of 20 f) < n_fields"
    by (simp add: field_of_def n_fields_def)
  have ff: "finite_factors (1 / 2) 1 ?fs"
    by (simp add: finite_factors_def pair_factor_None flt_finite_def)
  from r0 fl ff have r1: "reachable 20 (update 20 example_rsqrt ?m0 ?fs 1 (1 / 2) example_mask)"
    by (rule reachable.updated)
  have pz: "padding_zero 20 (weights (update 20 example_rsqrt ?m0 ?fs 1 (1 / 2) example_mask))"
    using r1 by (rule padding_stays_zero)
  show ?thesis
    using padding_zero_cell [OF pz, of 270 14] padding_zero_cell [OF pz, of 151 15]
    by (simp add: n_features_def n_fields_def)
qed

section \<open>Symmetry of the interaction term\<close>

lemma unrestricted_new: "unrestricted_mode (ffm_model_new hb raw_w raw_l gen False e l)"
  by (simp add: unrestricted_mode_def ffm_model_new_def)

lemma predict_dims_length:
  "length tot = 8 \<Longrightarrow> length (predict_dims w wa wb (mm256_set1_ps v) tot 0) = 8"
  by (simp add: predict_dims_unfold)

lemma predict_dims_lane:
  assumes "length tot = 8" "k < 8"
  shows "predict_dims w wa wb (mm256_set1_ps v) tot 0 ! k =
           tot ! k + w (wa + k) * w (wb + k) * v + w (wa + 8 + k) * w (wb + 8 + k) * v"
  using assms by (simp add: predict_dims_unfold nth_mm256)

lemma predict_pair_swap:
  assumes "length tot = 8"
  shows "predict_pair hb m nrm fa fb tot = predict_pair hb m nrm fb fa tot"
  unfolding predict_pair_def Let_def
  by (rule nth_equalityI) (simp_all add: assms predict_dims_length predict_dims_lane mult.commute)

lemma sum_16:
  fixes f :: "nat \<Rightarrow> real"
  shows "(\<Sum>d<16. f d) =
    f 0 + f 1 + f 2 + f 3 + f 4 + f 5 + f 6 + f 7 +
    (f 8 + f 9 + f 10 + f 11 + f 12 + f 13 + f 14 + f 15)"
  by (simp add: numeral_eq_Suc lessThan_Suc)

lemma predict_pair_sum:
  "sum_m256 (predict_pair hb m nrm fa fb (mm256_set1_ps bias)) =
     8 * bias + val fa * val fb / nrm *
       (\<Sum>d<n_dim_aligned. weights m (block_offset (index_of hb fa) (field_of hb fb) + d) *
                             weights m (block_offset (index_of hb fb) (field_of hb fa) + d))"
  unfolding predict_pair_def Let_def n_dim_aligned_16 sum_16
  by (simp add: sum_m256_lanes predict_dims_length predict_dims_lane nth_mm256 algebra_simps)

lemma predict_two_features:
  assumes "unrestricted_mode m" "unat (field_of hb f0) < n_fields" "test_mask_bit msk 0 \<noteq> 0"
  shows "xmm_total (predict_loop hb m [f0, f1] nrm msk) =
           predict_pair hb m nrm f1 f0 (mm256_set1_ps (bias_w m))"
proof -
  have "unat (field_of hb f0) \<le> unat (max_b_field m)"
    using assms(1,2) by (simp add: unrestricted_mode_def n_fields_def)
  then have "\<not> max_b_field m < field_of hb f0"
    by (simp add: word_less_nat_alt)
  with assms(1,3) show ?thesis
    by (simp add: predict_loop_def Let_def unrestricted_mode_def)
qed

lemma predict_two_pairs:
  assumes "unrestricted_mode m" "unat (field_of hb f0) < n_fields" "test_mask_bit msk 0 \<noteq> 0"
  shows "pairs (predict_loop hb m [f0, f1] nrm msk) = [(1, 0, 0, True)]"
proof -
  have "unat (field_of hb f0) \<le> unat (max_b_field m)"
    using assms(1,2) by (simp add: unrestricted_mode_def n_fields_def)
  then have "\<not> max_b_field m < field_of hb f0"
    by (simp add: word_less_nat_alt)
  with assms(1,3) show ?thesis
    by (simp add: predict_loop_def Let_def unrestricted_mode_def)
qed

text \<open>
  C9. For an example of two features with valid field ids, in unrestricted mode and with
  the mask bit of the pair set, the interaction part of \<open>predict\<close> does not depend on
  which of the two comes first: in either order the single pair is visited with counter 0,
  the accumulator is the same vector, and its sum is eight times the bias plus
  \<open>value_0 * value_1 / norm\<close> times the lane-wise product of the blocks
  \<open>block (feature_0, field_1)\<close> and \<open>block (feature_1, field_0)\<close>, summed over the
  \<open>n_dim_aligned\<close> lanes the lane loop covers.
\<close>

theorem predict_pair_symmetric:
  assumes mode: "unrestricted_mode m"
    and f0: "unat (field_of hb f0) < n_fields" and f1: "unat (field_of hb f1) < n_fields"
    and bit: "test_mask_bit msk 0 \<noteq> 0"
  shows "xmm_total (predict_loop hb m [f0, f1] nrm msk) =
           xmm_total (predict_loop hb m [f1, f0] nrm msk) \<and>
         sum_m256 (xmm_total (predict_loop hb m [f0, f1] nrm msk)) =
           8 * bias_w m + val f0 * val f1 / nrm *
             (\<Sum>d<n_dim_aligned.
                weights m (block_offset (index_of hb f0) (field_of hb f1) + d) *
                weights m (block_offset (index_of hb f1) (field_of hb f0) + d)) \<and>
         pairs (predict_loop hb m [f0, f1] nrm msk) = [(1, 0, 0, True)] \<and>
         pairs (predict_loop hb m [f1, f0] nrm msk) = [(1, 0, 0, True)]"
proof -
  have a: "xmm_total (predict_loop hb m [f0, f1] nrm msk) =
             predict_pair hb m nrm f1 f0 (mm256_set1_ps (bias_w m))"
    using mode f0 bit by (rule predict_two_features)
  have b: "xmm_total (predict_loop hb m [f1, f0] nrm msk) =
             predict_pair hb m nrm f0 f1 (mm256_set1_ps (bias_w m))"
    using mode f1 bit by (rule predict_two_features)
  have sw: "predict_pair hb m nrm f1 f0 (mm256_set1_ps (bias_w m)) =
              predict_pair hb m nrm f0 f1 (mm256_set1_ps (bias_w m))"
    by (rule predict_pair_swap) simp
  show ?thesis
    unfolding a b sw predict_pair_sum
    using predict_two_pairs [OF mode f0 bit] predict_two_pairs [OF mode f1 bit] by simp
qed

theorem predict_pair_symmetric_witness:
  "sum_m256 (xmm_total (predict_loop 20 example_model
      [\<lparr>index = 5, val = 1\<rparr>, \<lparr>index = 1048585, val = 2\<rparr>] 1 (\<lambda>_. 1))) = 32 \<and>
   xmm_total (predict_loop 20 example_model
      [\<lparr>index = 5, val = 1\<rparr>, \<lparr>index = 1048585, val = 2\<rparr>] 1 (\<lambda>_. 1)) =
   xmm_total (predict_loop 20 example_model
      [\<lparr>index = 1048585, val = 2\<rparr>, \<lparr>index = 5, val = 1\<rparr>] 1 (\<lambda>_. 1))"
proof -
  have mode: "unrestricted_mode example_model"
    by (simp add: unrestricted_mode_def example_model_def n_fields_def)
  have f0: "unat (field_of 20 \<lparr>index = 5, val = 1\<rparr>) < n_fields"
    and f1: "unat (field_of 20 \<lparr>index = 1048585, val = 2\<rparr>) < n_fields"
    by (simp_all add: field_of_def n_fields_def)
  have bit: "test_mask_bit (\<lambda>_. 1) 0 \<noteq> 0" by (simp add: test_mask_bit_def)
  note sym = predict_pair_symmetric [OF mode f0 f1 bit, of 1]
  from sym have "sum_m256 (xmm_total (predict_loop 20 example_model
      [\<lparr>index = 5, val = 1\<rparr>, \<lparr>index = 1048585, val = 2\<rparr>] 1 (\<lambda>_. 1))) =
      8 * bias_w example_model + val \<lparr>index = 5, val = 1\<rparr> * val \<lparr>index = 1048585, val = 2\<rparr> / 1 *
        (\<Sum>d<n_dim_aligned.
           weights example_model (block_offset (index_of 20 \<lparr>index = 5, val = 1\<rparr>)
              (field_of 20 \<lparr>index = 1048585, val = 2\<rparr>) + d) *
           weights example_model (block_offset (index_of 20 \<lparr>index = 1048585, val = 2\<rparr>)
              (field_of 20 \<lparr>index = 5, val = 1\<rparr>) + d))"
    by (rule conjunct2 [THEN conjunct1])
  also have "\<dots> = 32"
    by (simp add: example_model_def field_of_def index_of_def ffm_hash_mask_def block_offset_def
        strides n_dim_aligned_16 sum_16)
  finally have s: "sum_m256 (xmm_total (predict_loop 20 example_model
      [\<lparr>index = 5, val = 1\<rparr>, \<lparr>index = 1048585, val = 2\<rparr>] 1 (\<lambda>_. 1))) = 32" .
  from sym have e: "xmm_total (predict_loop 20 example_model
      [\<lparr>index = 5, val = 1\<rparr>, \<lparr>index = 1048585, val = 2\<rparr>] 1 (\<lambda>_. 1)) =
   xmm_total (predict_loop 20 example_model
      [\<lparr>index = 1048585, val = 2\<rparr>, \<lparr>index = 5, val = 1\<rparr>] 1 (\<lambda>_. 1))"
    by (rule conjunct1)
  from s e show ?thesis by (rule conjI)
qed

section \<open>The enumeration of pairs\<close>

lemma visits_from_Nil [simp]: "visits_from msk i [] = []"
  by (simp add: visits_from_def)

lemma visits_from_Cons:
  "visits_from msk i (p # ps) =
     (fst p, snd p, i, test_mask_bit msk i \<noteq> 0) # visits_from msk (i + 1) ps"
proof -
  have "enumerate (Suc 0) ps = map (\<lambda>q. (Suc (fst q), snd q)) (enumerate 0 ps)"
    by (simp add: enumerate_Suc_eq apfst_def map_prod_def case_prod_unfold)
  then show ?thesis
    by (simp add: visits_from_def case_prod_unfold comp_def ac_simps)
qed

lemma visits_from_append:
  "visits_from msk i (ps @ qs) =
     visits_from msk i ps @ visits_from msk (i + word_of_nat (length ps)) qs"
  by (induction ps arbitrary: i) (simp_all add: visits_from_Cons ac_simps)

lemma length_visits_from [simp]: "length (visits_from msk i ps) = length ps"
  by (simp add: visits_from_def)

lemma predict_inner_visits:
  "pairs (predict_inner hb m nrm msk a fa b bs s) =
     pairs s @ visits_from msk (cnt s)
       (map (Pair a) [b..<b + length (takeWhile (\<lambda>fb. \<not> max_b_field m < field_of hb fb) bs)]) \<and>
   cnt (predict_inner hb m nrm msk a fa b bs s) =
     cnt s + word_of_nat (length (takeWhile (\<lambda>fb. \<not> max_b_field m < field_of hb fb) bs))"
proof (induction bs arbitrary: b s)
  case Nil
  then show ?case by simp
next
  case (Cons fb rest)
  show ?case
  proof (cases "max_b_field m < field_of hb fb")
    case True
    then show ?thesis by simp
  next
    case False
    have up: "[b..<Suc (b + n)] = b # [Suc b..<Suc (b + n)]" for n
      by (simp add: upt_conv_Cons)
    from False show ?thesis
      by (simp add: Let_def Cons.IH up visits_from_Cons ac_simps del: upt_Suc)
  qed
qed

lemma predict_outer_visits:
  "pairs (predict_outer hb m nrm msk lnorm pre fs s) =
     pairs s @ visits_from msk (cnt s) (rows hb m pre fs) \<and>
   cnt (predict_outer hb m nrm msk lnorm pre fs s) =
     cnt s + word_of_nat (length (rows hb m pre fs))"
proof (induction fs arbitrary: pre s)
  case Nil
  then show ?case by simp
next
  case (Cons fa rest)
  show ?case
    by (simp add: Let_def Cons.IH predict_inner_visits visits_from_append ac_simps)
qed

lemma rows_scan:
  "rows hb m pre fs =
     concat (map (\<lambda>a. map (Pair a) (scan hb m (pre @ fs) a)) [length pre..<length pre + length fs])"
proof (induction fs arbitrary: pre)
  case Nil
  then show ?case by simp
next
  case (Cons fa rest)
  have "scan hb m (pre @ fa # rest) (length pre) =
      (if field_of hb fa < min_a_field m then []
       else [0..<length (takeWhile (\<lambda>fb. \<not> max_b_field m < field_of hb fb) pre)])"
    by (simp add: scan_def)
  moreover have "[length pre..<length pre + length (fa # rest)] =
      length pre # [length (pre @ [fa])..<length (pre @ [fa]) + length rest]"
    by (simp add: upt_conv_Cons del: upt_Suc)
  ultimately show ?case
    by (simp add: Cons.IH [of "pre @ [fa]"] del: upt_Suc)
qed

lemma rows_tested_pairs: "rows hb m [] fs = tested_pairs hb m fs"
  by (simp add: rows_scan tested_pairs_def)

lemma replay_predict_simps:
  "replay_predict hb m nrm fs [] t = t"
  "replay_predict hb m nrm fs ((a, b, i, on) # vs) t =
     replay_predict hb m nrm fs vs (if on then predict_pair hb m nrm (fs ! a) (fs ! b) t else t)"
  "replay_predict hb m nrm fs (us @ vs) t =
     replay_predict hb m nrm fs vs (replay_predict hb m nrm fs us t)"
  by (simp_all add: replay_predict_def)

lemma replay_update_simps:
  "replay_update hb rs nrm kappa fs [] m = m"
  "replay_update hb rs nrm kappa fs ((a, b, i, on) # vs) m =
     replay_update hb rs nrm kappa fs vs
       (if on then (case update_pair hb rs m nrm kappa (fs ! a) (fs ! b) of
                      Inr m' \<Rightarrow> m' | Inl cells \<Rightarrow> m)
        else m)"
  "replay_update hb rs nrm kappa fs (us @ vs) m =
     replay_update hb rs nrm kappa fs vs (replay_update hb rs nrm kappa fs us m)"
  by (simp_all add: replay_update_def)

lemma predict_inner_replay:
  assumes "fs ! a = fa" "\<forall>k<length bs. fs ! (b + k) = bs ! k"
  shows "xmm_total (predict_inner hb m nrm msk a fa b bs s) =
     replay_predict hb m nrm fs
       (visits_from msk (cnt s)
          (map (Pair a) [b..<b + length (takeWhile (\<lambda>fb. \<not> max_b_field m < field_of hb fb) bs)]))
       (xmm_total s)"
  using assms
proof (induction bs arbitrary: b s)
  case Nil
  then show ?case by (simp add: replay_predict_simps)
next
  case (Cons fb rest)
  show ?case
  proof (cases "max_b_field m < field_of hb fb")
    case True
    then show ?thesis by (simp add: replay_predict_simps)
  next
    case False
    have up: "[b..<Suc (b + n)] = b # [Suc b..<Suc (b + n)]" for n
      by (simp add: upt_conv_Cons)
    from Cons.prems(2) have fb: "fs ! b = fb" by auto
    have nxt: "\<forall>k<length rest. fs ! (Suc b + k) = rest ! k"
    proof (intro allI impI)
      fix k assume "k < length rest"
      then have "Suc k < length (fb # rest)" by simp
      with Cons.prems(2) have "fs ! (b + Suc k) = (fb # rest) ! Suc k" by blast
      then show "fs ! (Suc b + k) = rest ! k" by simp
    qed
    note IH = Cons.IH [OF Cons.prems(1), of "Suc b", OF nxt]
    from False show ?thesis
      by (simp add: Let_def IH up visits_from_Cons replay_predict_simps fb Cons.prems(1) ac_simps
          del: upt_Suc)
  qed
qed

lemma predict_outer_replay:
  "xmm_total (predict_outer hb m nrm msk lnorm pre fs s) =
     replay_predict hb m nrm (pre @ fs) (visits_from msk (cnt s) (rows hb m pre fs)) (xmm_total s)"
proof (induction fs arbitrary: pre s)
  case Nil
  then show ?case by (simp add: replay_predict_simps)
next
  case (Cons fa rest)
  have inner: "xmm_total (predict_inner hb m nrm msk (length pre) fa 0 pre s') =
     replay_predict hb m nrm (pre @ fa # rest)
       (visits_from msk (cnt s')
          (map (Pair (length pre))
             [0..<length (takeWhile (\<lambda>fb. \<not> max_b_field m < field_of hb fb) pre)]))
       (xmm_total s')" for s'
    using predict_inner_replay [of "pre @ fa # rest" "length pre" fa pre 0 hb m nrm msk s']
    by (simp add: nth_append)
  show ?case
    by (simp add: Let_def Cons.IH inner predict_inner_visits visits_from_append
        replay_predict_simps ac_simps)
qed

lemma update_inner_cnt:
  "cnt (update_inner hb rs nrm kappa msk a fa b bs s) =
     cnt s + word_of_nat (length (takeWhile (\<lambda>fb. \<not> max_b_field (model s) < field_of hb fb) bs))"
proof -
  let ?ps = "\<lparr>cnt = cnt s, pairs = pairs s, reads = reads s, xmm_total = [], linear_total = 0\<rparr>"
  have "cnt (predict_inner hb (model s) nrm msk a fa b bs ?ps) =
        cnt (update_inner hb rs nrm kappa msk a fa b bs s)"
    using inner_lockstep [where ps = ?ps and us = s and m = "model s" and hb = hb and nrm = nrm
        and msk = msk and a = a and fa = fa and b = b and bs = bs and kappa = kappa and rs = rs]
    by simp
  then show ?thesis by (simp add: predict_inner_visits)
qed

lemma same_factors_refl: "same_factors m m"
  by (simp add: same_factors_def)

lemma same_factors_trans: "same_factors m1 m2 \<Longrightarrow> same_factors m2 m3 \<Longrightarrow> same_factors m1 m3"
  by (simp add: same_factors_def)

lemma same_factors_update_linear: "same_factors (update_linear hb m kappa lnorm fa) m"
  by (simp add: same_factors_def update_linear_frame)

lemma same_factors_update_pair:
  "same_factors m1 m2 \<Longrightarrow>
   same_factors
     (case update_pair hb rs m1 nrm kappa fa fb of Inr m' \<Rightarrow> m' | Inl cells \<Rightarrow> m1)
     (case update_pair hb rs m2 nrm kappa fa fb of Inr m' \<Rightarrow> m' | Inl cells \<Rightarrow> m2)"
  by (simp add: same_factors_def update_pair_def Let_def split: option.splits)

lemma same_factors_replay:
  "same_factors m1 m2 \<Longrightarrow>
   same_factors (replay_update hb rs nrm kappa fs vs m1) (replay_update hb rs nrm kappa fs vs m2)"
proof (induction vs arbitrary: m1 m2)
  case Nil
  then show ?case by (simp add: replay_update_simps)
next
  case (Cons v vs)
  obtain a b i on where v: "v = (a, b, i, on)" by (cases v) auto
  show ?case
    unfolding v replay_update_simps
    using Cons.prems by (intro Cons.IH) (simp add: same_factors_update_pair)
qed

lemma update_inner_replay:
  assumes "fs ! a = fa" "\<forall>k<length bs. fs ! (b + k) = bs ! k"
  shows "model (update_inner hb rs nrm kappa msk a fa b bs s) =
     replay_update hb rs nrm kappa fs
       (visits_from msk (cnt s)
          (map (Pair a)
             [b..<b + length (takeWhile (\<lambda>fb. \<not> max_b_field (model s) < field_of hb fb) bs)]))
       (model s)"
  using assms
proof (induction bs arbitrary: b s)
  case Nil
  then show ?case by (simp add: replay_update_simps)
next
  case (Cons fb rest)
  show ?case
  proof (cases "max_b_field (model s) < field_of hb fb")
    case True
    then show ?thesis by (simp add: replay_update_simps)
  next
    case False
    have up: "[b..<Suc (b + n)] = b # [Suc b..<Suc (b + n)]" for n
      by (simp add: upt_conv_Cons)
    from Cons.prems(2) have fb: "fs ! b = fb" by auto
    have nxt: "\<forall>k<length rest. fs ! (Suc b + k) = rest ! k"
    proof (intro allI impI)
      fix k assume "k < length rest"
      then have "Suc k < length (fb # rest)" by simp
      with Cons.prems(2) have "fs ! (b + Suc k) = (fb # rest) ! Suc k" by blast
      then show "fs ! (Suc b + k) = rest ! k" by simp
    qed
    note IH = Cons.IH [OF Cons.prems(1), of "Suc b", OF nxt]
    from False show ?thesis
      by (simp add: Let_def IH up visits_from_Cons replay_update_simps fb Cons.prems(1)
          update_pair_frame ac_simps del: upt_Suc split: sum.splits)
  qed
qed

lemma rows_cong:
  "min_a_field m1 = min_a_field m2 \<Longrightarrow> max_b_field m1 = max_b_field m2 \<Longrightarrow>
   rows hb m1 pre fs = rows hb m2 pre fs"
  by (induction fs arbitrary: pre) simp_all

lemma update_outer_replay:
  assumes "min_a_field (model s) = min_a_field m" "max_b_field (model s) = max_b_field m"
  shows "same_factors (model (update_outer hb rs nrm kappa msk lnorm pre fs s))
           (replay_update hb rs nrm kappa (pre @ fs) (visits_from msk (cnt s) (rows hb m pre fs)) (model s))"
  using assms
proof (induction fs arbitrary: pre s)
  case Nil
  then show ?case by (simp add: replay_update_simps same_factors_refl)
next
  case (Cons fa rest)
  let ?fs = "pre @ fa # rest"
  let ?s1 = "s\<lparr>model := update_linear hb (model s) kappa lnorm fa\<rparr>"
  let ?n = "length (takeWhile (\<lambda>fb. \<not> max_b_field m < field_of hb fb) pre)"
  let ?row = "visits_from msk (cnt s) (map (Pair (length pre)) [0..<?n])"
  have fr1: "min_a_field (model ?s1) = min_a_field m" "max_b_field (model ?s1) = max_b_field m"
    using Cons.prems by (simp_all add: update_linear_frame)
  have sf1: "same_factors (model ?s1) (model s)"
    by (simp add: same_factors_update_linear)
  show ?case
  proof (cases "field_of hb fa < min_a_field m")
    case True
    have A: "same_factors (model (update_outer hb rs nrm kappa msk lnorm (pre @ [fa]) rest ?s1))
       (replay_update hb rs nrm kappa ?fs (visits_from msk (cnt s) (rows hb m (pre @ [fa]) rest)) (model ?s1))"
      using Cons.IH [OF fr1, of "pre @ [fa]"] by simp
    have B: "same_factors
       (replay_update hb rs nrm kappa ?fs (visits_from msk (cnt s) (rows hb m (pre @ [fa]) rest)) (model ?s1))
       (replay_update hb rs nrm kappa ?fs (visits_from msk (cnt s) (rows hb m (pre @ [fa]) rest)) (model s))"
      using sf1 by (rule same_factors_replay)
    from same_factors_trans [OF A B] show ?thesis
      using True fr1 by (simp add: Let_def)
  next
    case False
    let ?s2 = "update_inner hb rs nrm kappa msk (length pre) fa 0 pre ?s1"
    have m2: "model ?s2 = replay_update hb rs nrm kappa ?fs ?row (model ?s1)"
      using update_inner_replay [where fs = ?fs and a = "length pre" and fa = fa and bs = pre
          and b = 0 and hb = hb and nrm = nrm and kappa = kappa and msk = msk and s = ?s1
          and rs = rs] fr1
      by (simp add: nth_append)
    have c2: "cnt ?s2 = cnt s + word_of_nat ?n"
      using fr1 by (simp add: update_inner_cnt)
    have fr2: "min_a_field (model ?s2) = min_a_field m" "max_b_field (model ?s2) = max_b_field m"
      using fr1 by (simp_all add: update_inner_frame)
    have A: "same_factors (model (update_outer hb rs nrm kappa msk lnorm (pre @ [fa]) rest ?s2))
       (replay_update hb rs nrm kappa ?fs
          (visits_from msk (cnt s + word_of_nat ?n) (rows hb m (pre @ [fa]) rest)) (model ?s2))"
      using Cons.IH [OF fr2, of "pre @ [fa]"] by (simp add: c2)
    have B: "same_factors
       (replay_update hb rs nrm kappa ?fs
          (visits_from msk (cnt s + word_of_nat ?n) (rows hb m (pre @ [fa]) rest)) (model ?s2))
       (replay_update hb rs nrm kappa ?fs
          (visits_from msk (cnt s + word_of_nat ?n) (rows hb m (pre @ [fa]) rest))
          (replay_update hb rs nrm kappa ?fs ?row (model s)))"
      unfolding m2 using sf1 by (intro same_factors_replay)
    from same_factors_trans [OF A B] show ?thesis
      using False fr1
      by (simp add: Let_def visits_from_append replay_update_simps)
  qed
qed

lemma update_weights_loop:
  "weights (update hb rs m fs nrm kappa msk) = weights (model (update_loop hb rs m fs nrm kappa msk))"
  by (simp add: update_def update_bias_def Let_def)

text \<open>
  C2. For every feature list, norm and mask, \<open>predict\<close> and \<open>update\<close> visit the same pairs in
  the same order with the same value of the pair counter \<open>i\<close>, and issue the same mask
  reads. The pairs are those of the specification (\<open>tested_pairs\<close>): none for an outer
  feature whose field is below \<open>min_a_field\<close>, and a scan cut at the first inner feature
  whose field exceeds \<open>max_b_field\<close>; the counter numbers them consecutively, mask-skipped
  pairs included, and ends at their count. Each visited pair is gated by the mask bit at
  its counter in both passes, and the score, respectively the weight tensor, is the result
  of applying the interaction code for exactly the visits whose bit is set.
\<close>

theorem predict_update_lockstep:
  "pairs (predict_loop hb m fs nrm msk) = spec_visits hb m fs msk \<and>
   pairs (update_loop hb rs m fs nrm kappa msk) = spec_visits hb m fs msk \<and>
   cnt (predict_loop hb m fs nrm msk) = word_of_nat (length (tested_pairs hb m fs)) \<and>
   cnt (update_loop hb rs m fs nrm kappa msk) = word_of_nat (length (tested_pairs hb m fs)) \<and>
   reads (predict_loop hb m fs nrm msk) = reads (update_loop hb rs m fs nrm kappa msk) \<and>
   xmm_total (predict_loop hb m fs nrm msk) =
     replay_predict hb m nrm fs (spec_visits hb m fs msk) (mm256_set1_ps (bias_w m)) \<and>
   weights (update hb rs m fs nrm kappa msk) =
     weights (replay_update hb rs nrm kappa fs (spec_visits hb m fs msk) m)"
proof -
  let ?p0 = "\<lparr>cnt = 0, pairs = [], reads = [],
        xmm_total = mm256_set1_ps (bias_w m), linear_total = 0\<rparr>"
  let ?u0 = "\<lparr>cnt = 0, pairs = [], reads = [], model = m, nonfinite = {}\<rparr>"
  have lock: "cnt (predict_loop hb m fs nrm msk) = cnt (update_loop hb rs m fs nrm kappa msk)"
    "pairs (predict_loop hb m fs nrm msk) = pairs (update_loop hb rs m fs nrm kappa msk)"
    "reads (predict_loop hb m fs nrm msk) = reads (update_loop hb rs m fs nrm kappa msk)"
    unfolding predict_loop_def update_loop_def
    using outer_lockstep [where ps = ?p0 and us = ?u0 and m = m and hb = hb and nrm = nrm
        and msk = msk and lnorm = "real (length fs)" and pre = "[]" and fs = fs
        and kappa = kappa and rs = rs]
    by simp_all
  have p: "pairs (predict_loop hb m fs nrm msk) = spec_visits hb m fs msk"
    and c: "cnt (predict_loop hb m fs nrm msk) = word_of_nat (length (tested_pairs hb m fs))"
    unfolding predict_loop_def
    by (simp_all add: predict_outer_visits rows_tested_pairs spec_visits_def)
  have x: "xmm_total (predict_loop hb m fs nrm msk) =
     replay_predict hb m nrm fs (spec_visits hb m fs msk) (mm256_set1_ps (bias_w m))"
    unfolding predict_loop_def
    by (simp add: predict_outer_replay rows_tested_pairs spec_visits_def)
  have "same_factors (model (update_loop hb rs m fs nrm kappa msk))
          (replay_update hb rs nrm kappa fs (spec_visits hb m fs msk) m)"
    unfolding update_loop_def
    using update_outer_replay [where s = ?u0 and m = m and hb = hb and nrm = nrm
        and kappa = kappa and msk = msk and lnorm = "real (length fs)" and pre = "[]"
        and fs = fs and rs = rs]
    by (simp add: rows_tested_pairs spec_visits_def)
  then have w: "weights (update hb rs m fs nrm kappa msk) =
     weights (replay_update hb rs nrm kappa fs (spec_visits hb m fs msk) m)"
    by (simp add: same_factors_def update_weights_loop)
  from lock p c x w show ?thesis by simp
qed

lemma test_mask_bit_bit:
  "test_mask_bit msk i = (if bit (msk (unat (drop_bit 6 i))) (unat (i AND 63)) then 1 else 0)"
  by (simp add: test_mask_bit_def and_one_eq bit_iff_odd_drop_bit mod_2_eq_odd)

lemma example_spec_visits:
  "spec_visits 20 (ffm_model_new 20 (\<lambda>_. 0) (\<lambda>_. 0) (\<lambda>_. 1) True 1 0) example_features (\<lambda>_. 1) =
     [(1, 0, 0, True), (2, 0, 1, False)]"
  by (simp add: spec_visits_def visits_from_def tested_pairs_def scan_def field_of_def
      example_features_def ffm_model_new_def test_mask_bit_def upt_conv_Cons)

text \<open>
  A run in restricted mode on four features of fields 12, 25, 15 and 3 with only mask bit
  0 set: the pair (1, 0) is visited with counter 0 and applied, the pair (2, 0) with
  counter 1 and skipped by the mask, the scan of position 2 stops at the field 25, and
  position 3 scans nothing.
\<close>

theorem predict_update_lockstep_example:
  "pairs (predict_loop 20 (ffm_model_new 20 (\<lambda>_. 0) (\<lambda>_. 0) (\<lambda>_. 1) True 1 0)
      example_features 1 (\<lambda>_. 1)) = [(1, 0, 0, True), (2, 0, 1, False)] \<and>
   pairs (update_loop 20 example_rsqrt (ffm_model_new 20 (\<lambda>_. 0) (\<lambda>_. 0) (\<lambda>_. 1) True 1 0)
      example_features 1 (1 / 2) (\<lambda>_. 1)) = [(1, 0, 0, True), (2, 0, 1, False)] \<and>
   cnt (update_loop 20 example_rsqrt (ffm_model_new 20 (\<lambda>_. 0) (\<lambda>_. 0) (\<lambda>_. 1) True 1 0)
      example_features 1 (1 / 2) (\<lambda>_. 1)) = 2"
proof -
  have "length (tested_pairs 20 (ffm_model_new 20 (\<lambda>_. 0) (\<lambda>_. 0) (\<lambda>_. 1) True 1 0) example_features) = 2"
    by (simp add: tested_pairs_def scan_def field_of_def example_features_def ffm_model_new_def
        upt_conv_Cons)
  then show ?thesis
    using predict_update_lockstep [where hb = 20
        and m = "ffm_model_new 20 (\<lambda>_. 0) (\<lambda>_. 0) (\<lambda>_. 1) True 1 0"
        and fs = example_features and nrm = 1 and msk = "\<lambda>_. 1" and kappa = "1 / 2"
        and rs = example_rsqrt]
    by (simp add: example_spec_visits)
qed

section \<open>The bias step\<close>

text \<open>
  C7. Every call to \<open>update\<close> ends by adding \<open>kappa\<close> itself, not its square, to the bias
  accumulator, and then subtracts \<open>eta * kappa / sqrt\<close> of the new accumulator from the
  bias weight.
\<close>

theorem update_bias_step:
  "bias_wg (update hb rs m fs nrm kappa msk) = bias_wg m + kappa \<and>
   bias_w (update hb rs m fs nrm kappa msk) =
     bias_w m - eta m * kappa / sqrt (bias_wg (update hb rs m fs nrm kappa msk))"
  by (simp add: update_bias_cells)

end
